theory Spec2Isabelle
  imports Complex_Main
begin

section \<open>Data model: cells, rows and frames\<close>

text \<open>
  The pipeline of \<^verbatim>\<open>include/transformations.py\<close> works on pandas data frames. A frame is
  modelled by its column labels, the dtype of each column and its rows; a row maps a column
  label to one cell. A cell is a missing value (NaN, None and NaT alike), a number, a string,
  a timestamp (day number and time of day) or a calendar date (day number).

  A string is the list of its Unicode code points. A number is the rational value of an
  integer or of a double; what the arithmetic of doubles makes of two numbers is not
  computed here but taken from the library (see below).
\<close>

type_synonym unistr = "nat list"

datatype cell = Null | Num rat | Str unistr | Timestamp int nat | Date int

text \<open>The code points of a string literal of the theory (ASCII).\<close>

definition text_of :: "string \<Rightarrow> unistr" where
  "text_of s = map of_char s"

datatype dtype = Object | Numeric | Datetime64

type_synonym row = "string \<Rightarrow> cell"

record frame =
  columns :: "string list"
  dtypes :: "string \<Rightarrow> dtype"
  rows :: "row list"

datatype error =
    ValueError_missing_columns "string list"
  | ValueError_empty_csv
  | AttributeError_str_accessor
  | KeyError string
  | NotNullViolation
  | CardinalityViolation
  | OperationalError

text \<open>
  What the libraries under pandas compute is not part of the repository; it is a parameter
  of the model, one record \<open>P\<close> with three groups of fields.

  The parsers of pandas: \<open>to_datetime_str\<close> parses one string of a column (it sees the
  whole column, because pandas infers one format per column), \<open>to_datetime_num\<close> reads a
  number as an epoch offset, \<open>to_numeric_str\<close> parses a numeric string. Each returns
  \<open>None\<close> where \<^verbatim>\<open>errors="coerce"\<close> yields a missing value.

  The Unicode tables of Python, which \<^verbatim>\<open>str.strip\<close>, \<^verbatim>\<open>str.title\<close> and
  \<^verbatim>\<open>str.lower\<close> consult for every code point: whether it is cased, case-ignorable or
  white space, and its full lower-case and title-case mappings (a mapping can have more
  than one code point).

  The arithmetic of IEEE doubles as numpy and pandas use it: the product, the difference
  and the quotient of two doubles, and the sum that a pandas reduction makes of a list of
  numbers.
\<close>

record pandas =
  to_datetime_str :: "cell list \<Rightarrow> unistr \<Rightarrow> (int \<times> nat) option"
  to_datetime_num :: "rat \<Rightarrow> (int \<times> nat) option"
  to_numeric_str :: "unistr \<Rightarrow> rat option"
  is_cased :: "nat \<Rightarrow> bool"
  is_case_ignorable :: "nat \<Rightarrow> bool"
  is_whitespace :: "nat \<Rightarrow> bool"
  to_lower_full :: "nat \<Rightarrow> unistr"
  to_title_full :: "nat \<Rightarrow> unistr"
  fmul :: "rat \<Rightarrow> rat \<Rightarrow> rat"
  fsub :: "rat \<Rightarrow> rat \<Rightarrow> rat"
  fdiv :: "rat \<Rightarrow> rat \<Rightarrow> rat"
  fsum :: "rat list \<Rightarrow> rat"

definition column :: "frame \<Rightarrow> string \<Rightarrow> cell list" where
  "column df c = map (\<lambda>r. r c) (rows df)"

text \<open>\<^verbatim>\<open>len(df)\<close> and \<^verbatim>\<open>df.empty\<close> (no rows, or no columns).\<close>

definition len :: "frame \<Rightarrow> nat" where
  "len df = length (rows df)"

definition empty :: "frame \<Rightarrow> bool" where
  "empty df \<longleftrightarrow> rows df = [] \<or> columns df = []"

text \<open>\<^verbatim>\<open>df[c] = series\<close>: every row gets its new cell, the column is appended when new.\<close>

definition setitem :: "string \<Rightarrow> dtype \<Rightarrow> (row \<Rightarrow> cell) \<Rightarrow> frame \<Rightarrow> frame" where
  "setitem c dt f df =
     df\<lparr>columns := (if c \<in> set (columns df) then columns df else columns df @ [c]),
        dtypes := (dtypes df)(c := dt),
        rows := map (\<lambda>r. r(c := f r)) (rows df)\<rparr>"

section \<open>String methods\<close>

text \<open>
  \<^verbatim>\<open>str.strip()\<close> removes the white space at both ends.
\<close>

definition strip :: "pandas \<Rightarrow> unistr \<Rightarrow> unistr" where
  "strip P s = rev (dropWhile (is_whitespace P) (rev (dropWhile (is_whitespace P) s)))"

text \<open>
  The lower case of one code point inside a string, as CPython computes it: the capital
  sigma (U+03A3, 931) becomes the final sigma (962) when a cased code point precedes it and
  none follows it, case-ignorable code points skipped on both sides, and the small sigma
  (963) otherwise; every other code point has the lower-case mapping of the tables.
\<close>

definition handle_capital_sigma :: "pandas \<Rightarrow> unistr \<Rightarrow> unistr \<Rightarrow> nat" where
  "handle_capital_sigma P before after =
     (let back = dropWhile (is_case_ignorable P) (rev before);
          final_sigma = (back \<noteq> [] \<and> is_cased P (hd back));
          forth = dropWhile (is_case_ignorable P) after;
          final_sigma = (final_sigma \<and> (forth = [] \<or> \<not> is_cased P (hd forth)))
      in if final_sigma then 962 else 963)"

definition lower_ucs4 :: "pandas \<Rightarrow> unistr \<Rightarrow> nat \<Rightarrow> unistr \<Rightarrow> unistr" where
  "lower_ucs4 P before c after =
     (if c = 931 then [handle_capital_sigma P before after] else to_lower_full P c)"

text \<open>\<^verbatim>\<open>str.lower()\<close>, code point by code point; \<open>before\<close> is the part of the string
  already passed.\<close>

fun lower_from :: "pandas \<Rightarrow> unistr \<Rightarrow> unistr \<Rightarrow> unistr" where
  "lower_from P before [] = []"
| "lower_from P before (c # cs) = lower_ucs4 P before c cs @ lower_from P (before @ [c]) cs"

definition lower :: "pandas \<Rightarrow> unistr \<Rightarrow> unistr" where
  "lower P s = lower_from P [] s"

text \<open>
  \<^verbatim>\<open>str.title()\<close>: a code point is mapped to lower case when the code point before it is
  cased and to title case when it is not.
\<close>

fun title_from :: "pandas \<Rightarrow> bool \<Rightarrow> unistr \<Rightarrow> unistr \<Rightarrow> unistr" where
  "title_from P previous_is_cased before [] = []"
| "title_from P previous_is_cased before (c # cs) =
     (if previous_is_cased then lower_ucs4 P before c cs else to_title_full P c)
     @ title_from P (is_cased P c) (before @ [c]) cs"

definition title :: "pandas \<Rightarrow> unistr \<Rightarrow> unistr" where
  "title P s = title_from P False [] s"

text \<open>
  The \<^verbatim>\<open>.str\<close> accessor of a series. pandas raises \<^verbatim>\<open>AttributeError\<close> unless the
  column has object dtype and its values are inferred as strings, as empty (no value
  present) or as mixed; a column of numbers only, of dates only or of timestamps only is
  refused. A string method maps a string and turns every other cell into a missing value.
\<close>

fun cell_kind :: "cell \<Rightarrow> nat" where
  "cell_kind Null = 0"
| "cell_kind (Num x) = 1"
| "cell_kind (Str s) = 2"
| "cell_kind (Timestamp d t) = 3"
| "cell_kind (Date d) = 4"

definition str_inferred :: "cell list \<Rightarrow> bool" where
  "str_inferred col =
     (let present = filter (\<lambda>c. c \<noteq> Null) col in
      case present of
        [] \<Rightarrow> True
      | v # vs \<Rightarrow> cell_kind v = 2 \<or> (\<exists>w \<in> set vs. cell_kind w \<noteq> cell_kind v))"

definition str_accessor :: "frame \<Rightarrow> string \<Rightarrow> error + unit" where
  "str_accessor df c =
     (if dtypes df c = Object \<and> str_inferred (column df c) then Inr ()
      else Inl AttributeError_str_accessor)"

fun str_method :: "(unistr \<Rightarrow> unistr) \<Rightarrow> cell \<Rightarrow> cell" where
  "str_method f (Str s) = Str (f s)"
| "str_method f c = Null"

section \<open>Coercions and arithmetic on cells\<close>

text \<open>\<^verbatim>\<open>pd.to_datetime(series, errors="coerce")\<close>, cell by cell.\<close>

fun to_datetime :: "pandas \<Rightarrow> cell list \<Rightarrow> cell \<Rightarrow> cell" where
  "to_datetime P col Null = Null"
| "to_datetime P col (Str s) =
     (case to_datetime_str P col s of None \<Rightarrow> Null | Some (d, t) \<Rightarrow> Timestamp d t)"
| "to_datetime P col (Num x) =
     (case to_datetime_num P x of None \<Rightarrow> Null | Some (d, t) \<Rightarrow> Timestamp d t)"
| "to_datetime P col (Timestamp d t) = Timestamp d t"
| "to_datetime P col (Date d) = Timestamp d 0"

text \<open>\<^verbatim>\<open>pd.to_numeric(series, errors="coerce")\<close>, cell by cell.\<close>

fun to_numeric :: "pandas \<Rightarrow> cell \<Rightarrow> cell" where
  "to_numeric P (Num x) = Num x"
| "to_numeric P (Str s) = (case to_numeric_str P s of None \<Rightarrow> Null | Some x \<Rightarrow> Num x)"
| "to_numeric P c = Null"

text \<open>\<^verbatim>\<open>series.clip(0, 1)\<close>: a missing value stays missing.\<close>

fun clip01 :: "cell \<Rightarrow> cell" where
  "clip01 (Num x) = Num (min 1 (max 0 x))"
| "clip01 c = Null"

text \<open>
  \<^verbatim>\<open>series.round(n)\<close> is numpy's rounding of doubles: the value is multiplied by
  \<open>10 ^ n\<close>, rounded to the nearest integer with halves to the even neighbour
  (\<^verbatim>\<open>rint\<close>, which is exact) and divided by \<open>10 ^ n\<close>; the product and the quotient
  are those of doubles.
\<close>

definition rint :: "rat \<Rightarrow> int" where
  "rint x =
     (let f = \<lfloor>x\<rfloor>; d = x - of_int f in
      if d < 1 / 2 then f
      else if 1 / 2 < d then f + 1
      else if even f then f else f + 1)"

definition around :: "pandas \<Rightarrow> nat \<Rightarrow> rat \<Rightarrow> rat" where
  "around P n x = fdiv P (of_int (rint (fmul P x (10 ^ n)))) (10 ^ n)"

fun round_cell :: "pandas \<Rightarrow> nat \<Rightarrow> cell \<Rightarrow> cell" where
  "round_cell P n (Num x) = Num (around P n x)"
| "round_cell P n c = Null"

text \<open>\<^verbatim>\<open>quantity * unit_price * (1 - discount)\<close> on numeric cells, in the arithmetic of
  doubles; a missing operand gives a missing result.\<close>

fun revenue :: "pandas \<Rightarrow> cell \<Rightarrow> cell \<Rightarrow> cell \<Rightarrow> cell" where
  "revenue P (Num q) (Num p) (Num d) = Num (fmul P (fmul P q p) (fsub P 1 d))"
| "revenue P q p d = Null"

text \<open>\<^verbatim>\<open>series.dt.date\<close>.\<close>

fun dt_date :: "cell \<Rightarrow> cell" where
  "dt_date (Timestamp d t) = Date d"
| "dt_date c = Null"

section \<open>Schema validation\<close>

definition REQUIRED_COLUMNS :: "string list" where
  "REQUIRED_COLUMNS =
     [''order_id'', ''customer_id'', ''product'', ''category'', ''region'',
      ''quantity'', ''unit_price'', ''discount'', ''order_date'', ''status'']"

definition validate_schema :: "frame \<Rightarrow> error + unit" where
  "validate_schema df =
     (let missing = filter (\<lambda>c. c \<notin> set (columns df)) REQUIRED_COLUMNS in
      if missing \<noteq> [] then Inl (ValueError_missing_columns missing) else Inr ())"

text \<open>The task \<^verbatim>\<open>validate_csv\<close> of the DAG, on the frame read from the downloaded file.\<close>

definition validate_csv :: "frame \<Rightarrow> error + unit" where
  "validate_csv df =
     (if empty df then Inl ValueError_empty_csv
      else
        let required = REQUIRED_COLUMNS;
            missing = filter (\<lambda>c. c \<notin> set (columns df)) required in
        if missing \<noteq> [] then Inl (ValueError_missing_columns missing) else Inr ())"

section \<open>Cleaning and transformation\<close>

text \<open>
  \<^verbatim>\<open>df.drop_duplicates(subset=[key])\<close>: a row is dropped when an earlier row has the same
  key cell (missing keys count as equal to each other).
\<close>

fun keep_first :: "string \<Rightarrow> cell list \<Rightarrow> row list \<Rightarrow> row list" where
  "keep_first key seen [] = []"
| "keep_first key seen (r # rs) =
     (if r key \<in> set seen then keep_first key seen rs
      else r # keep_first key (r key # seen) rs)"

definition drop_duplicates :: "string \<Rightarrow> frame \<Rightarrow> frame" where
  "drop_duplicates key df = df\<lparr>rows := keep_first key [] (rows df)\<rparr>"

text \<open>\<^verbatim>\<open>df.dropna(subset=cs)\<close>: keeps the rows with no missing cell among the columns \<open>cs\<close>.\<close>

definition dropna :: "string list \<Rightarrow> frame \<Rightarrow> frame" where
  "dropna cs df = df\<lparr>rows := filter (\<lambda>r. \<forall>c \<in> set cs. r c \<noteq> Null) (rows df)\<rparr>"

definition then_do :: "error + 'a \<Rightarrow> ('a \<Rightarrow> error + 'b) \<Rightarrow> error + 'b" where
  "then_do m f = (case m of Inl e \<Rightarrow> Inl e | Inr x \<Rightarrow> f x)"

text \<open>The four text columns, normalised in the order of the source.\<close>

definition normalise_text :: "pandas \<Rightarrow> frame \<Rightarrow> error + frame" where
  "normalise_text P df =
     then_do (str_accessor df ''region'') (\<lambda>_.
     let df = setitem ''region'' Object
                (\<lambda>r. str_method (title P) (str_method (strip P) (r ''region''))) df in
     then_do (str_accessor df ''category'') (\<lambda>_.
     let df = setitem ''category'' Object
                (\<lambda>r. str_method (title P) (str_method (strip P) (r ''category''))) df in
     then_do (str_accessor df ''product'') (\<lambda>_.
     let df = setitem ''product'' Object (\<lambda>r. str_method (strip P) (r ''product'')) df in
     then_do (str_accessor df ''status'') (\<lambda>_.
     let df = setitem ''status'' Object
                (\<lambda>r. str_method (lower P) (str_method (strip P) (r ''status''))) df in
     Inr df))))"

definition clean_and_transform :: "pandas \<Rightarrow> frame \<Rightarrow> error + (frame \<times> int)" where
  "clean_and_transform P df0 =
     (let original_len = len df0 in
      then_do (validate_schema df0) (\<lambda>_.
      let df = drop_duplicates ''order_id'' df0;
          dates = column df ''order_date'';
          df = setitem ''order_date'' Datetime64 (\<lambda>r. to_datetime P dates (r ''order_date'')) df;
          df = setitem ''quantity'' Numeric (\<lambda>r. to_numeric P (r ''quantity'')) df;
          df = setitem ''unit_price'' Numeric (\<lambda>r. to_numeric P (r ''unit_price'')) df;
          df = setitem ''discount'' Numeric (\<lambda>r. clip01 (to_numeric P (r ''discount''))) df;
          df = dropna [''order_id'', ''order_date'', ''quantity'', ''unit_price''] df in
      then_do (normalise_text P df) (\<lambda>df.
      let df = setitem ''total_revenue'' Numeric
                 (\<lambda>r. round_cell P 2 (revenue P (r ''quantity'') (r ''unit_price'') (r ''discount''))) df;
          df = setitem ''order_date'' Object (\<lambda>r. dt_date (r ''order_date'')) df;
          rows_skipped = int original_len - int (len df) in
      Inr (df, rows_skipped))))"

section \<open>Product aggregation\<close>

text \<open>
  \<^verbatim>\<open>df.groupby(["product", "category"]).agg(...)\<close>. pandas leaves out every row whose
  group key has a missing component, and its reductions skip missing values: the sum of no
  value is 0, the mean and the maximum of no value are missing. A sum is the sum that the
  library makes of the numbers of the group, a mean is that sum divided by their count, in
  the arithmetic of doubles. The reductions are modelled on the columns as the cleaned
  batch has them (numbers, and calendar dates for \<^verbatim>\<open>order_date\<close>). The groups are
  listed in order of first appearance; pandas sorts them by key, and no property below
  depends on the order.
\<close>

fun unique :: "'a list \<Rightarrow> 'a list \<Rightarrow> 'a list" where
  "unique seen [] = []"
| "unique seen (x # xs) = (if x \<in> set seen then unique seen xs else x # unique (x # seen) xs)"

fun numbers :: "cell list \<Rightarrow> rat list" where
  "numbers [] = []"
| "numbers (Num x # cs) = x # numbers cs"
| "numbers (c # cs) = numbers cs"

fun days :: "cell list \<Rightarrow> int list" where
  "days [] = []"
| "days (Date d # cs) = d # days cs"
| "days (c # cs) = days cs"

definition agg_sum :: "pandas \<Rightarrow> cell list \<Rightarrow> cell" where
  "agg_sum P cs =
     (let xs = numbers cs in
      if xs = [] then Num 0 else Num (fsum P xs))"

definition agg_mean :: "pandas \<Rightarrow> cell list \<Rightarrow> cell" where
  "agg_mean P cs =
     (let xs = numbers cs in
      if xs = [] then Null else Num (fdiv P (fsum P xs) (of_nat (length xs))))"

definition agg_max :: "cell list \<Rightarrow> cell" where
  "agg_max cs =
     (let ds = days cs in
      if ds = [] then Null else Date (fold max (tl ds) (hd ds)))"

definition group_key :: "row \<Rightarrow> cell \<times> cell" where
  "group_key r = (r ''product'', r ''category'')"

definition has_group_key :: "row \<Rightarrow> bool" where
  "has_group_key r \<longleftrightarrow> r ''product'' \<noteq> Null \<and> r ''category'' \<noteq> Null"

definition group_keys :: "frame \<Rightarrow> (cell \<times> cell) list" where
  "group_keys df = unique [] (map group_key (filter has_group_key (rows df)))"

definition group_rows :: "frame \<Rightarrow> cell \<times> cell \<Rightarrow> row list" where
  "group_rows df k = filter (\<lambda>r. has_group_key r \<and> group_key r = k) (rows df)"

definition agg_row :: "pandas \<Rightarrow> frame \<Rightarrow> cell \<times> cell \<Rightarrow> row" where
  "agg_row P df k =
     (let g = group_rows df k in
      (\<lambda>c. Null)
        (''product'' := fst k,
         ''category'' := snd k,
         ''total_units_sold'' := agg_sum P (map (\<lambda>r. r ''quantity'') g),
         ''total_revenue'' := agg_sum P (map (\<lambda>r. r ''total_revenue'') g),
         ''avg_discount'' := agg_mean P (map (\<lambda>r. r ''discount'') g),
         ''last_purchased_date'' := agg_max (map (\<lambda>r. r ''order_date'') g)))"

definition AGG_INPUT_COLUMNS :: "string list" where
  "AGG_INPUT_COLUMNS =
     [''product'', ''category'', ''quantity'', ''total_revenue'', ''discount'', ''order_date'']"

definition AGG_COLUMNS :: "string list" where
  "AGG_COLUMNS =
     [''product'', ''category'', ''total_units_sold'', ''total_revenue'', ''avg_discount'',
      ''last_purchased_date'']"

definition build_product_aggregations :: "pandas \<Rightarrow> frame \<Rightarrow> error + frame" where
  "build_product_aggregations P df =
     (case filter (\<lambda>c. c \<notin> set (columns df)) AGG_INPUT_COLUMNS of
        c # cs \<Rightarrow> Inl (KeyError c)
      | [] \<Rightarrow>
          let agg = \<lparr>columns = AGG_COLUMNS,
                     dtypes = (\<lambda>c. if c = ''product'' \<or> c = ''category'' then dtypes df c
                                    else if c = ''last_purchased_date'' then Object else Numeric),
                     rows = map (agg_row P df) (group_keys df)\<rparr>;
              agg = setitem ''total_revenue'' Numeric (\<lambda>r. round_cell P 2 (r ''total_revenue'')) agg;
              agg = setitem ''avg_discount'' Numeric (\<lambda>r. round_cell P 4 (r ''avg_discount'')) agg
          in Inr agg)"

section \<open>The loader\<close>

text \<open>
  Modelled from the spec: the schema of the destination database is not part of the
  repository. Following the spec, \<^verbatim>\<open>orders\<close> is keyed by the order identifier,
  \<^verbatim>\<open>purchased_products\<close> is keyed by the product name and \<^verbatim>\<open>pipeline_runs\<close> is
  append-only with a surrogate key. A key is never missing. Column defaults are unknown:
  a column that an insert does not list stays missing, and the surrogate key of a new
  audit row is the number of audit rows after the insert.
\<close>

record run_record =
  run_id :: nat
  dag_run_id :: string
  file_processed :: string
  rows_inserted :: int
  rows_skipped :: int
  status :: string
  finished_at :: cell

record db =
  orders :: "cell \<rightharpoonup> row"
  purchased_products :: "cell \<rightharpoonup> row"
  pipeline_runs :: "run_record list"

text \<open>
  The server holds the committed database. Faults of the server or of the network are
  part of the input: \<open>fault_at = Some n\<close> makes the statement number \<open>n\<close> of a connection
  raise, \<open>commit_fails\<close> makes the commit raise. \<open>clock\<close> is the value of \<^verbatim>\<open>NOW()\<close>
  during the transaction.
\<close>

record server =
  database :: db
  fault_at :: "nat option"
  commit_fails :: bool
  clock :: cell

record connection =
  working :: db
  executed :: nat
  faults :: "nat option"
  now :: cell

text \<open>One statement on a connection: it raises, or it changes the working state of the
  open transaction.\<close>

definition execute :: "(db \<Rightarrow> error + db) \<Rightarrow> connection \<Rightarrow> error + connection" where
  "execute stmt conn =
     (if faults conn = Some (executed conn) then Inl OperationalError
      else then_do (stmt (working conn))
             (\<lambda>d. Inr (conn\<lparr>working := d, executed := executed conn + 1\<rparr>)))"

text \<open>
  \<^verbatim>\<open>get_connection\<close>: the body runs on a fresh connection; when the body and the commit
  succeed the working state becomes the committed one, and when either raises the
  transaction is rolled back and the error is raised again.
\<close>

definition connect :: "server \<Rightarrow> connection" where
  "connect srv = \<lparr>working = database srv, executed = 0, faults = fault_at srv, now = clock srv\<rparr>"

definition get_connection :: "server \<Rightarrow> (connection \<Rightarrow> error + ('a \<times> connection)) \<Rightarrow> (error + 'a) \<times> server" where
  "get_connection srv body =
     (let conn = connect srv in
      case body conn of
        Inl e \<Rightarrow> (Inl e, srv)
      | Inr (x, conn') \<Rightarrow>
          if commit_fails srv then (Inl OperationalError, srv)
          else (Inr x, srv\<lparr>database := working conn'\<rparr>))"

text \<open>\<^verbatim>\<open>psycopg2.extras.execute_values\<close>: one statement per page of \<open>page_size\<close> records;
  the cursor's row count is that of the last statement, and \<open>-1\<close> before any.\<close>

function paginate :: "nat \<Rightarrow> 'a list \<Rightarrow> 'a list list" where
  "paginate n xs = (if n = 0 \<or> xs = [] then [] else take n xs # paginate n (drop n xs))"
  by pat_completeness auto
termination
  by (relation "measure (\<lambda>(n, xs). length xs)") auto

declare paginate.simps [simp del]

fun execute_pages ::
  "(row list \<Rightarrow> db \<Rightarrow> error + db) \<Rightarrow> row list list \<Rightarrow> int \<Rightarrow> connection \<Rightarrow> error + (int \<times> connection)" where
  "execute_pages stmt [] rowcount conn = Inr (rowcount, conn)"
| "execute_pages stmt (page # pages) rowcount conn =
     then_do (execute (stmt page) conn) (execute_pages stmt pages (int (length page)))"

definition execute_values ::
  "(row list \<Rightarrow> db \<Rightarrow> error + db) \<Rightarrow> row list \<Rightarrow> nat \<Rightarrow> connection \<Rightarrow> error + (int \<times> connection)" where
  "execute_values stmt records page_size conn =
     execute_pages stmt (paginate page_size records) (- 1) conn"

text \<open>\<^verbatim>\<open>tuple(row[col] for col in columns)\<close> for every row of a frame.\<close>

definition records_of :: "string list \<Rightarrow> frame \<Rightarrow> error + row list" where
  "records_of cols df =
     (if rows df = [] then Inr []
      else case filter (\<lambda>c. c \<notin> set (columns df)) cols of
             c # cs \<Rightarrow> Inl (KeyError c)
           | [] \<Rightarrow> Inr (map (\<lambda>r c. if c \<in> set cols then r c else Null) (rows df)))"

text \<open>
  \<^verbatim>\<open>INSERT ... ON CONFLICT (key) DO UPDATE\<close> over the records of one statement. The
  statement raises when a key is missing, and when two of its records have the same key
  (PostgreSQL refuses to affect a row a second time in one command).
\<close>

definition on_conflict_statement ::
  "string \<Rightarrow> (row \<Rightarrow> (cell \<rightharpoonup> row) \<Rightarrow> (cell \<rightharpoonup> row)) \<Rightarrow> row list \<Rightarrow> (cell \<rightharpoonup> row) \<Rightarrow> error + (cell \<rightharpoonup> row)" where
  "on_conflict_statement key upsert records tbl =
     (if Null \<in> set (map (\<lambda>r. r key) records) then Inl NotNullViolation
      else if \<not> distinct (map (\<lambda>r. r key) records) then Inl CardinalityViolation
      else Inr (fold upsert records tbl))"

definition ORDER_COLUMNS :: "string list" where
  "ORDER_COLUMNS =
     [''order_id'', ''customer_id'', ''product'', ''category'', ''region'', ''quantity'',
      ''unit_price'', ''discount'', ''order_date'', ''status'']"

definition upsert_order :: "cell \<Rightarrow> row \<Rightarrow> (cell \<rightharpoonup> row) \<Rightarrow> (cell \<rightharpoonup> row)" where
  "upsert_order NOW excluded tbl =
     (case tbl (excluded ''order_id'') of
        None \<Rightarrow> tbl(excluded ''order_id'' \<mapsto> excluded)
      | Some existing \<Rightarrow>
          tbl(excluded ''order_id'' \<mapsto>
            existing(''customer_id'' := excluded ''customer_id'',
                     ''product'' := excluded ''product'',
                     ''category'' := excluded ''category'',
                     ''region'' := excluded ''region'',
                     ''quantity'' := excluded ''quantity'',
                     ''unit_price'' := excluded ''unit_price'',
                     ''discount'' := excluded ''discount'',
                     ''order_date'' := excluded ''order_date'',
                     ''status'' := excluded ''status'',
                     ''ingested_at'' := NOW)))"

definition orders_statement :: "cell \<Rightarrow> row list \<Rightarrow> db \<Rightarrow> error + db" where
  "orders_statement NOW records d =
     then_do (on_conflict_statement ''order_id'' (upsert_order NOW) records (orders d))
       (\<lambda>tbl. Inr (d\<lparr>orders := tbl\<rparr>))"

definition upsert_orders :: "frame \<Rightarrow> connection \<Rightarrow> error + ((int \<times> int) \<times> connection)" where
  "upsert_orders df conn =
     (if empty df then Inr ((0, 0), conn)
      else
        then_do (records_of ORDER_COLUMNS df) (\<lambda>records.
        then_do (execute_values (orders_statement (now conn)) records 500 conn) (\<lambda>(rows_affected, conn).
        let rows_inserted = rows_affected;
            rows_skipped = (if rows_inserted \<ge> 0 then int (len df) - rows_inserted else 0)
        in Inr ((rows_inserted, rows_skipped), conn))))"

text \<open>SQL addition and \<^verbatim>\<open>GREATEST\<close>: a sum with a missing operand is missing,
  \<^verbatim>\<open>GREATEST\<close> ignores a missing operand.\<close>

fun sql_add :: "cell \<Rightarrow> cell \<Rightarrow> cell" where
  "sql_add (Num x) (Num y) = Num (x + y)"
| "sql_add a b = Null"

fun greatest :: "cell \<Rightarrow> cell \<Rightarrow> cell" where
  "greatest (Date x) (Date y) = Date (max x y)"
| "greatest Null b = b"
| "greatest a Null = a"
| "greatest a b = Null"

definition upsert_product :: "cell \<Rightarrow> row \<Rightarrow> (cell \<rightharpoonup> row) \<Rightarrow> (cell \<rightharpoonup> row)" where
  "upsert_product NOW excluded tbl =
     (case tbl (excluded ''product'') of
        None \<Rightarrow> tbl(excluded ''product'' \<mapsto> excluded(''updated_at'' := NOW))
      | Some existing \<Rightarrow>
          tbl(excluded ''product'' \<mapsto>
            existing(''category'' := excluded ''category'',
                     ''total_units_sold'' :=
                        sql_add (existing ''total_units_sold'') (excluded ''total_units_sold''),
                     ''total_revenue'' :=
                        sql_add (existing ''total_revenue'') (excluded ''total_revenue''),
                     ''avg_discount'' := excluded ''avg_discount'',
                     ''last_purchased_date'' :=
                        greatest (existing ''last_purchased_date'') (excluded ''last_purchased_date''),
                     ''updated_at'' := NOW)))"

definition products_statement :: "cell \<Rightarrow> row list \<Rightarrow> db \<Rightarrow> error + db" where
  "products_statement NOW records d =
     then_do (on_conflict_statement ''product'' (upsert_product NOW) records (purchased_products d))
       (\<lambda>tbl. Inr (d\<lparr>purchased_products := tbl\<rparr>))"

definition upsert_purchased_products :: "frame \<Rightarrow> connection \<Rightarrow> error + (unit \<times> connection)" where
  "upsert_purchased_products agg_df conn =
     (if empty agg_df then Inr ((), conn)
      else
        then_do (records_of AGG_COLUMNS agg_df) (\<lambda>records.
        then_do (execute_values (products_statement (now conn)) records 500 conn) (\<lambda>(rowcount, conn).
        Inr ((), conn))))"

definition runs_statement :: "cell \<Rightarrow> string \<Rightarrow> string \<Rightarrow> int \<Rightarrow> int \<Rightarrow> string \<Rightarrow> db \<Rightarrow> error + db" where
  "runs_statement NOW dag_run file inserted skipped st d =
     Inr (d\<lparr>pipeline_runs := pipeline_runs d @
            [\<lparr>run_id = Suc (length (pipeline_runs d)), dag_run_id = dag_run,
              file_processed = file, rows_inserted = inserted, rows_skipped = skipped,
              status = st, finished_at = NOW\<rparr>]\<rparr>)"

definition log_pipeline_run ::
  "connection \<Rightarrow> string \<Rightarrow> string \<Rightarrow> int \<Rightarrow> int \<Rightarrow> string \<Rightarrow> error + (nat \<times> connection)" where
  "log_pipeline_run conn dag_run file inserted skipped st =
     then_do (execute (runs_statement (now conn) dag_run file inserted skipped st) conn)
       (\<lambda>conn. Inr (run_id (last (pipeline_runs (working conn))), conn))"

text \<open>The task \<^verbatim>\<open>load_to_postgres\<close> of the DAG, on the cleaned frame read back from the
  intermediate file and the values handed over by the earlier tasks.\<close>

definition load_body ::
  "frame \<Rightarrow> frame \<Rightarrow> int \<Rightarrow> string \<Rightarrow> string \<Rightarrow> connection \<Rightarrow> error + (int \<times> connection)" where
  "load_body df agg_df skipped object_key dag_run conn =
     then_do (upsert_orders df conn) (\<lambda>((inserted, _), conn).
     then_do (upsert_purchased_products agg_df conn) (\<lambda>(_, conn).
     then_do (log_pipeline_run conn dag_run object_key inserted skipped ''success'') (\<lambda>(_, conn).
     Inr (inserted, conn))))"

definition load_to_postgres ::
  "pandas \<Rightarrow> server \<Rightarrow> frame \<Rightarrow> int option \<Rightarrow> string \<Rightarrow> string \<Rightarrow> (error + unit) \<times> server" where
  "load_to_postgres P srv df xcom_rows_skipped object_key dag_run =
     (let skipped = (case xcom_rows_skipped of None \<Rightarrow> 0 | Some k \<Rightarrow> k) in
      case build_product_aggregations P df of
        Inl e \<Rightarrow> (Inl e, srv)
      | Inr agg_df \<Rightarrow>
          (case get_connection srv (load_body df agg_df skipped object_key dag_run) of
             (Inl e, srv') \<Rightarrow> (Inl e, srv')
           | (Inr inserted, srv') \<Rightarrow> (Inr (), srv')))"

section \<open>The stages of the cleaning, row by row\<close>

text \<open>
  The definitions of this section restate the stages of \<^verbatim>\<open>clean_and_transform\<close> as
  functions on one row; the lemmas after them prove that the frame operations above compute
  exactly these.
\<close>

definition coerce_row :: "pandas \<Rightarrow> cell list \<Rightarrow> row \<Rightarrow> row" where
  "coerce_row P dates r =
     r(''order_date'' := to_datetime P dates (r ''order_date''),
       ''quantity'' := to_numeric P (r ''quantity''),
       ''unit_price'' := to_numeric P (r ''unit_price''),
       ''discount'' := clip01 (to_numeric P (r ''discount'')))"

definition critical :: "row \<Rightarrow> bool" where
  "critical r \<longleftrightarrow> r ''order_id'' \<noteq> Null \<and> r ''order_date'' \<noteq> Null
                 \<and> r ''quantity'' \<noteq> Null \<and> r ''unit_price'' \<noteq> Null"

definition text_row :: "pandas \<Rightarrow> row \<Rightarrow> row" where
  "text_row P r =
     r(''region'' := str_method (title P) (str_method (strip P) (r ''region'')),
       ''category'' := str_method (title P) (str_method (strip P) (r ''category'')),
       ''product'' := str_method (strip P) (r ''product''),
       ''status'' := str_method (lower P) (str_method (strip P) (r ''status'')))"

definition derive_row :: "pandas \<Rightarrow> row \<Rightarrow> row" where
  "derive_row P r =
     r(''total_revenue'' := round_cell P 2 (revenue P (r ''quantity'') (r ''unit_price'') (r ''discount'')),
       ''order_date'' := dt_date (r ''order_date''))"

definition first_rows :: "frame \<Rightarrow> row list" where
  "first_rows df = keep_first ''order_id'' [] (rows df)"

definition salvaged :: "pandas \<Rightarrow> frame \<Rightarrow> row list" where
  "salvaged P df =
     filter critical (map (coerce_row P (map (\<lambda>r. r ''order_date'') (first_rows df))) (first_rows df))"

definition coerced :: "pandas \<Rightarrow> frame \<Rightarrow> frame" where
  "coerced P df0 =
     (let df = drop_duplicates ''order_id'' df0;
          dates = column df ''order_date'';
          df = setitem ''order_date'' Datetime64 (\<lambda>r. to_datetime P dates (r ''order_date'')) df;
          df = setitem ''quantity'' Numeric (\<lambda>r. to_numeric P (r ''quantity'')) df;
          df = setitem ''unit_price'' Numeric (\<lambda>r. to_numeric P (r ''unit_price'')) df;
          df = setitem ''discount'' Numeric (\<lambda>r. clip01 (to_numeric P (r ''discount''))) df
      in dropna [''order_id'', ''order_date'', ''quantity'', ''unit_price''] df)"

definition derived :: "pandas \<Rightarrow> frame \<Rightarrow> frame" where
  "derived P df0 =
     (let df = setitem ''total_revenue'' Numeric
                 (\<lambda>r. round_cell P 2 (revenue P (r ''quantity'') (r ''unit_price'') (r ''discount''))) df0
      in setitem ''order_date'' Object (\<lambda>r. dt_date (r ''order_date'')) df)"

definition text_columns_ok :: "frame \<Rightarrow> bool" where
  "text_columns_ok df \<longleftrightarrow>
     (\<forall>c \<in> set [''region'', ''category'', ''product'', ''status''].
        dtypes df c = Object \<and> str_inferred (column df c))"

text \<open>
  A row of the input is a first occurrence when no earlier row has its order identifier;
  it is salvageable when its four critical cells are present after coercion. The dates
  are coerced on the deduplicated column. \<open>clean_row\<close> is what the cleaning makes of one
  row that it keeps.
\<close>

definition first_occurrence :: "frame \<Rightarrow> row \<Rightarrow> bool" where
  "first_occurrence df r \<longleftrightarrow>
     (\<exists>pre post. rows df = pre @ r # post \<and> r ''order_id'' \<notin> (\<lambda>q. q ''order_id'') ` set pre)"

definition deduplicated_dates :: "frame \<Rightarrow> cell list" where
  "deduplicated_dates df = column (drop_duplicates ''order_id'' df) ''order_date''"

definition salvageable :: "pandas \<Rightarrow> frame \<Rightarrow> row \<Rightarrow> bool" where
  "salvageable P df r \<longleftrightarrow>
     r ''order_id'' \<noteq> Null \<and>
     to_datetime P (deduplicated_dates df) (r ''order_date'') \<noteq> Null \<and>
     to_numeric P (r ''quantity'') \<noteq> Null \<and>
     to_numeric P (r ''unit_price'') \<noteq> Null"

definition clean_row :: "pandas \<Rightarrow> frame \<Rightarrow> row \<Rightarrow> row" where
  "clean_row P df r = derive_row P (text_row P (coerce_row P (deduplicated_dates df) r))"

text \<open>
  A string is stripped when it neither starts nor ends with white space. A row is cleaned
  when it has the shape of a row of a cleaned batch: the critical cells are present and
  typed, the discount is missing or within \<open>[0, 1]\<close>, the product is stripped and the
  revenue is the one computed from the row. A row is stable when a second normalisation
  leaves its region, category and status as they are; a frame is stable when its rows are.
\<close>

definition stripped :: "pandas \<Rightarrow> unistr \<Rightarrow> bool" where
  "stripped P t \<longleftrightarrow> t = [] \<or> (\<not> is_whitespace P (hd t) \<and> \<not> is_whitespace P (last t))"

definition cleaned_row :: "pandas \<Rightarrow> row \<Rightarrow> bool" where
  "cleaned_row P r \<longleftrightarrow>
     r ''order_id'' \<noteq> Null \<and>
     (\<exists>d. r ''order_date'' = Date d) \<and>
     (\<exists>q. r ''quantity'' = Num q) \<and>
     (\<exists>p. r ''unit_price'' = Num p) \<and>
     (r ''discount'' = Null \<or> (\<exists>x. r ''discount'' = Num x \<and> 0 \<le> x \<and> x \<le> 1)) \<and>
     (\<forall>c \<in> set [''region'', ''category'', ''product'', ''status''].
        r c = Null \<or> (\<exists>s. r c = Str s)) \<and>
     str_method (strip P) (r ''product'') = r ''product'' \<and>
     r ''total_revenue'' =
       round_cell P 2 (revenue P (r ''quantity'') (r ''unit_price'') (r ''discount''))"

definition stable_row :: "pandas \<Rightarrow> row \<Rightarrow> bool" where
  "stable_row P r \<longleftrightarrow>
     str_method (title P) (str_method (strip P) (r ''region'')) = r ''region'' \<and>
     str_method (title P) (str_method (strip P) (r ''category'')) = r ''category'' \<and>
     str_method (lower P) (str_method (strip P) (r ''status'')) = r ''status''"

definition text_stable :: "pandas \<Rightarrow> frame \<Rightarrow> bool" where
  "text_stable P df \<longleftrightarrow> (\<forall>r \<in> set (rows df). stable_row P r)"

text \<open>
  ASCII text, and what the Unicode tables say about the ASCII code points: the letters are
  the cased code points, each with its one-letter mappings, and the white space is the
  tabulators, line breaks, separators and the blank. \<open>ascii_title\<close> is title-casing
  by these mappings. \<open>ascii_columns\<close> holds of a frame whose region, category and status
  strings are ASCII text.
\<close>

definition ascii_text :: "unistr \<Rightarrow> bool" where
  "ascii_text s \<longleftrightarrow> (\<forall>c \<in> set s. c < 128)"

definition is_upper :: "nat \<Rightarrow> bool" where
  "is_upper c \<longleftrightarrow> 65 \<le> c \<and> c \<le> 90"

definition is_lower :: "nat \<Rightarrow> bool" where
  "is_lower c \<longleftrightarrow> 97 \<le> c \<and> c \<le> 122"

definition is_space :: "nat \<Rightarrow> bool" where
  "is_space c \<longleftrightarrow> (9 \<le> c \<and> c \<le> 13) \<or> (28 \<le> c \<and> c \<le> 32)"

definition to_lower :: "nat \<Rightarrow> nat" where
  "to_lower c = (if is_upper c then c + 32 else c)"

definition to_upper :: "nat \<Rightarrow> nat" where
  "to_upper c = (if is_lower c then c - 32 else c)"

fun ascii_title :: "bool \<Rightarrow> unistr \<Rightarrow> unistr" where
  "ascii_title previous_is_cased [] = []"
| "ascii_title previous_is_cased (c # cs) =
     (if previous_is_cased then to_lower c else to_upper c)
     # ascii_title (is_upper c \<or> is_lower c) cs"

definition ascii_tables :: "pandas \<Rightarrow> bool" where
  "ascii_tables P \<longleftrightarrow>
     (\<forall>c < 128.
        is_cased P c = (is_upper c \<or> is_lower c) \<and>
        is_whitespace P c = is_space c \<and>
        to_lower_full P c = [to_lower c] \<and>
        to_title_full P c = [to_upper c])"

definition ascii_columns :: "frame \<Rightarrow> bool" where
  "ascii_columns df \<longleftrightarrow>
     (\<forall>r \<in> set (rows df). \<forall>c \<in> set [''region'', ''category'', ''status''].
        \<forall>s. r c = Str s \<longrightarrow> ascii_text s)"

text \<open>A load is the value of \<^verbatim>\<open>NOW()\<close> of its transaction and one aggregation record;
  \<open>loads_for p\<close> selects the loads of the product \<open>p\<close>.\<close>

definition loads_for :: "cell \<Rightarrow> (cell \<times> row) list \<Rightarrow> (cell \<times> row) list" where
  "loads_for p loads = filter (\<lambda>l. snd l ''product'' = p) loads"

definition example_product :: "string \<Rightarrow> rat \<Rightarrow> rat \<Rightarrow> rat \<Rightarrow> int \<Rightarrow> row" where
  "example_product name units revenue_total discount day =
     (\<lambda>c. Null)
       (''product'' := Str (text_of name), ''category'' := Str (text_of ''Electronics''),
        ''total_units_sold'' := Num units, ''total_revenue'' := Num revenue_total,
        ''avg_discount'' := Num discount, ''last_purchased_date'' := Date day)"

text \<open>A row of a cleaned batch for the examples, and a cleaned batch of such rows.\<close>

definition example_order ::
  "string \<Rightarrow> string \<Rightarrow> string \<Rightarrow> rat \<Rightarrow> rat \<Rightarrow> cell \<Rightarrow> int \<Rightarrow> row" where
  "example_order order name cat qty revenue_total discount day =
     (\<lambda>c. Null)
       (''order_id'' := Str (text_of order), ''customer_id'' := Str (text_of ''c1''),
        ''product'' := Str (text_of name),
        ''category'' := Str (text_of cat), ''region'' := Str (text_of ''Europe''), ''quantity'' := Num qty,
        ''unit_price'' := Num 10, ''discount'' := discount, ''order_date'' := Date day,
        ''status'' := Str (text_of ''completed''), ''total_revenue'' := Num revenue_total)"

definition example_cleaned :: "row list \<Rightarrow> frame" where
  "example_cleaned rs =
     \<lparr>columns = REQUIRED_COLUMNS @ [''total_revenue''],
      dtypes = (\<lambda>c. Object)(''quantity'' := Numeric, ''unit_price'' := Numeric,
                              ''discount'' := Numeric, ''total_revenue'' := Numeric),
      rows = rs\<rparr>"

text \<open>
  The library of the examples. Its parsers know two ISO dates (as day numbers since 1970)
  and the numeric string \<^verbatim>\<open>0.1\<close>, and refuse every other string. Its Unicode tables are
  an excerpt of the Unicode database: the ASCII range, and from beyond it the letters
  U+00DC and U+00FC (the capital and small u with diaeresis, 220 and 252), the capital I
  with dot above (U+0130, 304), whose lower case has the two code points 105 and 775, and
  the combining dot above (U+0307, 775), which is case-ignorable and not cased. Its
  arithmetic is exact.
\<close>

definition example_pandas :: pandas where
  "example_pandas =
     \<lparr>to_datetime_str = (\<lambda>col s. if s = text_of ''2024-06-01'' then Some (19875, 0)
                                 else if s = text_of ''2024-07-15'' then Some (19919, 0)
                                 else None),
      to_datetime_num = (\<lambda>x. None),
      to_numeric_str = (\<lambda>s. if s = text_of ''0.1'' then Some (1 / 10) else None),
      is_cased = (\<lambda>c. is_upper c \<or> is_lower c \<or> c = 220 \<or> c = 252 \<or> c = 304),
      is_case_ignorable = (\<lambda>c. c = 39 \<or> c = 46 \<or> c = 58 \<or> c = 94 \<or> c = 96 \<or> c = 775),
      is_whitespace = is_space,
      to_lower_full = (\<lambda>c. if is_upper c then [c + 32]
                            else if c = 220 then [252]
                            else if c = 304 then [105, 775]
                            else [c]),
      to_title_full = (\<lambda>c. if is_lower c then [c - 32]
                            else if c = 252 then [220]
                            else [c]),
      fmul = (\<lambda>x y. x * y),
      fsub = (\<lambda>x y. x - y),
      fdiv = (\<lambda>x y. x / y),
      fsum = sum_list\<rparr>"

definition example_row :: "string \<Rightarrow> cell \<Rightarrow> cell \<Rightarrow> cell \<Rightarrow> row" where
  "example_row order region discount date =
     (\<lambda>c. Null)
       (''order_id'' := Str (text_of order), ''customer_id'' := Str (text_of ''c1''),
        ''product'' := Str (text_of ''Laptop''),
        ''category'' := Str (text_of ''electronics''), ''region'' := region, ''quantity'' := Num 2,
        ''unit_price'' := Num (99999 / 100), ''discount'' := discount, ''order_date'' := date,
        ''status'' := Str (text_of ''Completed ''))"

definition example_batch :: "dtype \<Rightarrow> dtype \<Rightarrow> row list \<Rightarrow> frame" where
  "example_batch region_dtype discount_dtype rs =
     \<lparr>columns = REQUIRED_COLUMNS,
      dtypes = (\<lambda>c. Object)(''quantity'' := Numeric, ''unit_price'' := Numeric,
                              ''discount'' := discount_dtype, ''region'' := region_dtype),
      rows = rs\<rparr>"

section \<open>Basic facts\<close>

lemma text_of_eq_iff [simp]: "text_of a = text_of b \<longleftrightarrow> a = b"
proof -
  have "inj (of_char :: char \<Rightarrow> nat)"
    by (rule inj_of_char)
  then show ?thesis
    by (simp add: text_of_def inj_map_eq_map)
qed

lemma then_do_Inr: "then_do m f = Inr y \<longleftrightarrow> (\<exists>x. m = Inr x \<and> f x = Inr y)"
  by (cases m) (simp_all add: then_do_def)

lemma then_do_Inl: "then_do m f = Inl e \<longleftrightarrow> m = Inl e \<or> (\<exists>x. m = Inr x \<and> f x = Inl e)"
  by (cases m) (simp_all add: then_do_def)

lemma str_accessor_Inr: "str_accessor df c = Inr u \<longleftrightarrow> dtypes df c = Object \<and> str_inferred (column df c)"
  by (simp add: str_accessor_def)

lemma column_setitem: "column (setitem c dt f df) c' = (if c' = c then map f (rows df) else column df c')"
  by (simp add: column_def setitem_def comp_def)

lemma dtypes_setitem: "dtypes (setitem c dt f df) = (dtypes df)(c := dt)"
  by (simp add: setitem_def)

lemma rows_setitem: "rows (setitem c dt f df) = map (\<lambda>r. r(c := f r)) (rows df)"
  by (simp add: setitem_def)

lemma columns_setitem: "columns (setitem c dt f df) = (if c \<in> set (columns df) then columns df else columns df @ [c])"
  by (simp add: setitem_def)

lemma columns_setitem_mem: "c \<in> set (columns df) \<Longrightarrow> columns (setitem c dt f df) = columns df"
  by (simp add: setitem_def)

lemma set_columns_setitem: "set (columns (setitem c dt f df)) = insert c (set (columns df))"
  by (auto simp add: setitem_def)

lemma validate_schema_Inr:
  "validate_schema df = Inr u \<longleftrightarrow> set REQUIRED_COLUMNS \<subseteq> set (columns df)"
  by (auto simp: validate_schema_def Let_def filter_empty_conv)

lemma clean_and_transform_unfold:
  "clean_and_transform P df0 =
     then_do (validate_schema df0) (\<lambda>_.
     then_do (normalise_text P (coerced P df0)) (\<lambda>df.
       Inr (derived P df, int (len df0) - int (len (derived P df)))))"
  unfolding clean_and_transform_def coerced_def derived_def Let_def ..

lemma rows_coerced: "rows (coerced P df) = salvaged P df"
  unfolding coerced_def Let_def salvaged_def first_rows_def
  by (simp add: dropna_def drop_duplicates_def rows_setitem column_def critical_def [abs_def] coerce_row_def [abs_def] comp_def)

lemma dtypes_coerced:
  "dtypes (coerced P df) = (dtypes df)(''order_date'' := Datetime64, ''quantity'' := Numeric,
      ''unit_price'' := Numeric, ''discount'' := Numeric)"
  unfolding coerced_def Let_def
  by (simp add: dropna_def drop_duplicates_def dtypes_setitem)

lemma columns_coerced:
  "set REQUIRED_COLUMNS \<subseteq> set (columns df) \<Longrightarrow> columns (coerced P df) = columns df"
  unfolding coerced_def Let_def
  by (simp add: dropna_def drop_duplicates_def columns_setitem_mem set_columns_setitem REQUIRED_COLUMNS_def)

lemma normalise_text_Inr:
  "normalise_text P df = Inr out \<longleftrightarrow>
     text_columns_ok df \<and>
     out = setitem ''status'' Object (\<lambda>r. str_method (lower P) (str_method (strip P) (r ''status'')))
            (setitem ''product'' Object (\<lambda>r. str_method (strip P) (r ''product''))
            (setitem ''category'' Object (\<lambda>r. str_method (title P) (str_method (strip P) (r ''category'')))
            (setitem ''region'' Object (\<lambda>r. str_method (title P) (str_method (strip P) (r ''region''))) df)))"
  unfolding normalise_text_def then_do_Inr str_accessor_Inr Let_def text_columns_ok_def
  by (auto simp add: column_setitem dtypes_setitem)

lemma rows_normalise_text:
  "normalise_text P df = Inr out \<Longrightarrow> rows out = map (text_row P) (rows df)"
  unfolding normalise_text_Inr
  by (simp add: rows_setitem text_row_def [abs_def] comp_def)

lemma dtypes_normalise_text:
  "normalise_text P df = Inr out \<Longrightarrow>
     dtypes out = (dtypes df)(''region'' := Object, ''category'' := Object, ''product'' := Object, ''status'' := Object)"
  unfolding normalise_text_Inr
  by (simp add: dtypes_setitem)

lemma columns_normalise_text:
  "normalise_text P df = Inr out \<Longrightarrow> set REQUIRED_COLUMNS \<subseteq> set (columns df) \<Longrightarrow> columns out = columns df"
  unfolding normalise_text_Inr
  by (simp add: columns_setitem_mem set_columns_setitem REQUIRED_COLUMNS_def)

lemma rows_derived: "rows (derived P df) = map (derive_row P) (rows df)"
  unfolding derived_def Let_def by (simp add: rows_setitem derive_row_def [abs_def] comp_def)

lemma dtypes_derived: "dtypes (derived P df) = (dtypes df)(''total_revenue'' := Numeric, ''order_date'' := Object)"
  unfolding derived_def Let_def by (simp add: dtypes_setitem)

lemma columns_derived: "set REQUIRED_COLUMNS \<subseteq> set (columns df) \<Longrightarrow>
   columns (derived P df) = (if ''total_revenue'' \<in> set (columns df) then columns df else columns df @ [''total_revenue''])"
  unfolding derived_def Let_def by (simp add: columns_setitem REQUIRED_COLUMNS_def)

section \<open>Deduplication keeps first occurrences\<close>

lemma keep_first_mem:
  "r \<in> set (keep_first key seen rs) \<longleftrightarrow>
     (\<exists>pre post. rs = pre @ r # post \<and> r key \<notin> set seen \<and> r key \<notin> (\<lambda>x. x key) ` set pre)"
proof (induction rs arbitrary: seen)
  case Nil
  then show ?case by simp
next
  case (Cons a rs)
  show ?case
  proof (cases "a key \<in> set seen")
    case True
    have "(\<exists>pre post. a # rs = pre @ r # post \<and> r key \<notin> set seen \<and> r key \<notin> (\<lambda>x. x key) ` set pre)
       \<longleftrightarrow> (\<exists>pre post. rs = pre @ r # post \<and> r key \<notin> set seen \<and> r key \<notin> (\<lambda>x. x key) ` set pre)"
      (is "?L \<longleftrightarrow> ?R")
    proof
      assume ?L
      then obtain pre post where *: "a # rs = pre @ r # post" "r key \<notin> set seen" "r key \<notin> (\<lambda>x. x key) ` set pre"
        by blast
      show ?R
      proof (cases pre)
        case Nil
        with * True show ?thesis by auto
      next
        case (Cons b pre')
        with * show ?thesis by auto
      qed
    next
      assume ?R
      then obtain pre post where *: "rs = pre @ r # post" "r key \<notin> set seen" "r key \<notin> (\<lambda>x. x key) ` set pre"
        by blast
      from * True have "a key \<noteq> r key" by auto
      with * have "a # rs = (a # pre) @ r # post \<and> r key \<notin> set seen \<and> r key \<notin> (\<lambda>x. x key) ` set (a # pre)"
        by auto
      then show ?L by blast
    qed
    with True Cons.IH[of seen] show ?thesis by simp
  next
    case False
    have "(\<exists>pre post. a # rs = pre @ r # post \<and> r key \<notin> set seen \<and> r key \<notin> (\<lambda>x. x key) ` set pre)
       \<longleftrightarrow> (r = a \<or> (\<exists>pre post. rs = pre @ r # post \<and> r key \<notin> set (a key # seen) \<and> r key \<notin> (\<lambda>x. x key) ` set pre))"
      (is "?L \<longleftrightarrow> ?R")
    proof
      assume ?L
      then obtain pre post where *: "a # rs = pre @ r # post" "r key \<notin> set seen" "r key \<notin> (\<lambda>x. x key) ` set pre"
        by blast
      show ?R
      proof (cases pre)
        case Nil
        with * show ?thesis by auto
      next
        case (Cons b pre')
        with * have "rs = pre' @ r # post" "b = a" "r key \<noteq> a key" "r key \<notin> (\<lambda>x. x key) ` set pre'" by auto
        with * show ?thesis by auto
      qed
    next
      assume ?R
      then show ?L
      proof
        assume "r = a"
        with False have "a # rs = [] @ r # rs \<and> r key \<notin> set seen \<and> r key \<notin> (\<lambda>x. x key) ` set []" by simp
        then show ?L by blast
      next
        assume "\<exists>pre post. rs = pre @ r # post \<and> r key \<notin> set (a key # seen) \<and> r key \<notin> (\<lambda>x. x key) ` set pre"
        then obtain pre post where *: "rs = pre @ r # post" "r key \<notin> set (a key # seen)" "r key \<notin> (\<lambda>x. x key) ` set pre"
          by blast
        then have "a # rs = (a # pre) @ r # post \<and> r key \<notin> set seen \<and> r key \<notin> (\<lambda>x. x key) ` set (a # pre)"
          by auto
        then show ?L by blast
      qed
    qed
    with False Cons.IH[of "a key # seen"] show ?thesis by simp
  qed
qed

lemma keep_first_not_seen: "r \<in> set (keep_first key seen rs) \<Longrightarrow> r key \<notin> set seen"
  by (simp add: keep_first_mem) blast

lemma keep_first_subset: "set (keep_first key seen rs) \<subseteq> set rs"
  by (auto simp: keep_first_mem)

lemma keep_first_keys: "distinct (map (\<lambda>r. r key) (keep_first key seen rs))"
proof (induction rs arbitrary: seen)
  case Nil
  then show ?case by simp
next
  case (Cons a rs)
  have "a key \<notin> (\<lambda>r. r key) ` set (keep_first key (a key # seen) rs)"
  proof
    assume "a key \<in> (\<lambda>r. r key) ` set (keep_first key (a key # seen) rs)"
    then obtain r where "r \<in> set (keep_first key (a key # seen) rs)" "r key = a key" by auto
    with keep_first_not_seen[of r key "a key # seen" rs] show False by simp
  qed
  with Cons show ?case by simp
qed

lemma keep_first_distinct:
  "distinct (map (\<lambda>r. r key) rs) \<Longrightarrow> (\<lambda>r. r key) ` set rs \<inter> set seen = {} \<Longrightarrow>
   keep_first key seen rs = rs"
proof (induction rs arbitrary: seen)
  case Nil
  then show ?case by simp
next
  case (Cons a rs)
  from Cons.prems have "(\<lambda>r. r key) ` set rs \<inter> set (a key # seen) = {}" by auto
  with Cons show ?case by auto
qed

lemma length_keep_first: "length (keep_first key seen rs) \<le> length rs"
  by (induction rs arbitrary: seen) (auto simp: le_SucI)

section \<open>What a successful cleaning returns\<close>

lemma clean_and_transform_Inr:
  "clean_and_transform P df = Inr (out, k) \<longleftrightarrow>
     set REQUIRED_COLUMNS \<subseteq> set (columns df) \<and>
     (\<exists>mid. normalise_text P (coerced P df) = Inr mid \<and> out = derived P mid) \<and>
     k = int (len df) - int (len out)"
  unfolding clean_and_transform_unfold then_do_Inr validate_schema_Inr
  by auto

lemma rows_clean_and_transform:
  assumes "clean_and_transform P df = Inr (out, k)"
  shows "rows out = map (\<lambda>r. derive_row P (text_row P r)) (salvaged P df)"
proof -
  from assms obtain mid where "normalise_text P (coerced P df) = Inr mid" "out = derived P mid"
    unfolding clean_and_transform_Inr by blast
  then show ?thesis
    using rows_normalise_text [of P "coerced P df" mid]
    by (simp add: rows_derived rows_coerced comp_def)
qed

lemma deduplicated_dates_first_rows:
  "deduplicated_dates df = map (\<lambda>r. r ''order_date'') (first_rows df)"
  by (simp add: deduplicated_dates_def column_def drop_duplicates_def first_rows_def)

lemma salvageable_critical:
  "salvageable P df r \<longleftrightarrow> critical (coerce_row P (deduplicated_dates df) r)"
  by (simp add: salvageable_def critical_def coerce_row_def)

lemma first_rows_mem: "r \<in> set (first_rows df) \<longleftrightarrow> first_occurrence df r"
  by (simp add: first_rows_def first_occurrence_def keep_first_mem)

lemma clean_row_order_id: "clean_row P df r ''order_id'' = r ''order_id''"
  by (simp add: clean_row_def derive_row_def text_row_def coerce_row_def)

lemma rows_cleaned:
  assumes "clean_and_transform P df = Inr (out, k)"
  shows "rows out = map (clean_row P df) (filter (salvageable P df) (first_rows df))"
  unfolding rows_clean_and_transform [OF assms] salvaged_def filter_map
    deduplicated_dates_first_rows [symmetric]
  by (simp add: comp_def clean_row_def [abs_def] salvageable_critical [abs_def])

lemma order_ids_cleaned:
  assumes "clean_and_transform P df = Inr (out, k)"
  shows "map (\<lambda>r. r ''order_id'') (rows out) =
         map (\<lambda>r. r ''order_id'') (filter (salvageable P df) (first_rows df))"
  unfolding rows_cleaned [OF assms] by (simp add: comp_def clean_row_order_id)

lemma distinct_order_ids_cleaned:
  assumes "clean_and_transform P df = Inr (out, k)"
  shows "distinct (map (\<lambda>r. r ''order_id'') (rows out))"
  unfolding order_ids_cleaned [OF assms] first_rows_def
  by (rule distinct_map_filter) (rule keep_first_keys)

lemma clean_and_transform_succeeds:
  assumes "set REQUIRED_COLUMNS \<subseteq> set (columns df)" "text_columns_ok (coerced P df)"
  shows "\<exists>out. clean_and_transform P df = Inr (out, int (len df) - int (len out))"
proof -
  from assms(2) obtain mid where "normalise_text P (coerced P df) = Inr mid"
    unfolding normalise_text_Inr by blast
  with assms(1) have "clean_and_transform P df = Inr (derived P mid, int (len df) - int (len (derived P mid)))"
    unfolding clean_and_transform_Inr by blast
  then show ?thesis by blast
qed

lemma clean_and_transform_raises:
  assumes "set REQUIRED_COLUMNS \<subseteq> set (columns df)" "\<not> text_columns_ok (coerced P df)"
  shows "clean_and_transform P df = Inl AttributeError_str_accessor"
proof -
  from assms(1) have v: "validate_schema df = Inr ()" by (simp add: validate_schema_Inr)
  have "\<And>mid. normalise_text P (coerced P df) \<noteq> Inr mid"
    using assms(2) by (simp add: normalise_text_Inr)
  moreover have "\<And>e. normalise_text P (coerced P df) = Inl e \<Longrightarrow> e = AttributeError_str_accessor"
    unfolding normalise_text_def Let_def then_do_Inl str_accessor_def
    by (auto split: if_splits)
  ultimately have "normalise_text P (coerced P df) = Inl AttributeError_str_accessor"
    by (cases "normalise_text P (coerced P df)") auto
  with v show ?thesis
    by (simp add: clean_and_transform_unfold then_do_def)
qed

lemma text_columns_ok_coerced:
  "text_columns_ok (coerced P df) \<longleftrightarrow>
     (\<forall>c \<in> set [''region'', ''category'', ''product'', ''status''].
        dtypes df c = Object \<and>
        str_inferred (map (\<lambda>r. r c) (filter (salvageable P df) (first_rows df))))"
  unfolding text_columns_ok_def column_def rows_coerced salvaged_def filter_map
    deduplicated_dates_first_rows [symmetric] dtypes_coerced
  by (simp add: comp_def coerce_row_def salvageable_critical [abs_def])

lemma clean_and_transform_eval:
  assumes "set REQUIRED_COLUMNS \<subseteq> set (columns df)" "text_columns_ok (coerced P df)"
  shows "\<exists>out. clean_and_transform P df =
                 Inr (out, int (len df) - int (length (filter (salvageable P df) (first_rows df))))
             \<and> rows out = map (clean_row P df) (filter (salvageable P df) (first_rows df))"
proof -
  from clean_and_transform_succeeds [OF assms]
  obtain out where *: "clean_and_transform P df = Inr (out, int (len df) - int (len out))"
    by blast
  from rows_cleaned [OF *] have "rows out = map (clean_row P df) (filter (salvageable P df) (first_rows df))" .
  with * show ?thesis by (auto simp: len_def)
qed

section \<open>The example batches\<close>

lemma first_rows_example_batch: "first_rows (example_batch t u rs) = keep_first ''order_id'' [] rs"
  by (simp add: first_rows_def example_batch_def)

lemma columns_example_batch: "set REQUIRED_COLUMNS \<subseteq> set (columns (example_batch t u rs))"
  by (simp add: example_batch_def)

lemma len_example_batch: "len (example_batch t u rs) = length rs"
  by (simp add: example_batch_def len_def)

lemma dtypes_example_batch:
  "dtypes (example_batch t u rs) ''region'' = t"
  "dtypes (example_batch t u rs) ''category'' = Object"
  "dtypes (example_batch t u rs) ''product'' = Object"
  "dtypes (example_batch t u rs) ''status'' = Object"
  by (simp_all add: example_batch_def)

lemma example_row_simps:
  "example_row i g d t ''order_id'' = Str (text_of i)"
  "example_row i g d t ''order_date'' = t"
  "example_row i g d t ''quantity'' = Num 2"
  "example_row i g d t ''unit_price'' = Num (99999 / 100)"
  "example_row i g d t ''discount'' = d"
  "example_row i g d t ''region'' = g"
  "example_row i g d t ''category'' = Str (text_of ''electronics'')"
  "example_row i g d t ''product'' = Str (text_of ''Laptop'')"
  "example_row i g d t ''status'' = Str (text_of ''Completed '')"
  by (simp_all add: example_row_def)

lemma salvageable_example:
  "salvageable example_pandas df (example_row i g d (Str (text_of ''2024-06-01'')))"
  "salvageable example_pandas df (example_row i g d (Str (text_of ''2024-07-15'')))"
  "\<not> salvageable example_pandas df (example_row i g d (Str (text_of ''junk'')))"
  by (simp_all add: salvageable_def example_row_simps example_pandas_def)

lemma to_numeric_example:
  "to_numeric_str example_pandas (text_of ''0.1'') = Some (1 / 10)"
  "to_numeric_str example_pandas (text_of ''ten percent'') = None"
  by (simp_all add: example_pandas_def)

lemma first_occurrence_head: "first_occurrence (example_batch t u (r # rs)) r"
  unfolding first_occurrence_def example_batch_def
  by (rule exI [of _ "[]"]) simp

lemma first_occurrence_second:
  "a ''order_id'' \<noteq> r ''order_id'' \<Longrightarrow> first_occurrence (example_batch t u (a # r # rs)) r"
  unfolding first_occurrence_def example_batch_def
  by (rule exI [of _ "[a]"]) simp

lemmas example_simps =
  text_columns_ok_coerced first_rows_example_batch salvageable_example example_row_simps
  str_inferred_def dtypes_example_batch len_example_batch to_numeric_example

lemma clean_row_discount:
  "clean_row P df r ''discount'' = clip01 (to_numeric P (r ''discount''))"
  by (simp add: clean_row_def derive_row_def text_row_def coerce_row_def)

lemma clean_row_total_revenue:
  "clean_row P df r ''total_revenue'' =
     round_cell P 2 (revenue P (to_numeric P (r ''quantity'')) (to_numeric P (r ''unit_price''))
                     (clip01 (to_numeric P (r ''discount''))))"
  by (simp add: clean_row_def derive_row_def text_row_def coerce_row_def)


section \<open>String methods: fixed points\<close>

lemma strip_stripped: "stripped P t \<Longrightarrow> strip P t = t"
proof (cases "t = []")
  case True
  then show ?thesis by (simp add: strip_def)
next
  case False
  assume "stripped P t"
  with False have h: "\<not> is_whitespace P (hd t)" and l: "\<not> is_whitespace P (last t)"
    by (simp_all add: stripped_def)
  from False h have 1: "dropWhile (is_whitespace P) t = t"
    by (cases t) simp_all
  from False l have 2: "dropWhile (is_whitespace P) (rev t) = rev t"
    by (cases "rev t") (simp_all add: hd_rev [symmetric] del: rev_is_Nil_conv)
  show ?thesis by (simp add: strip_def 1 2)
qed

lemma stripped_strip: "stripped P (strip P s)"
proof (cases "dropWhile (is_whitespace P) s = []")
  case True
  have "strip P s = []"
    unfolding strip_def True by simp
  then show ?thesis by (simp add: stripped_def)
next
  case False
  define u where "u = dropWhile (is_whitespace P) s"
  from False have u: "u \<noteq> []" and hu: "\<not> is_whitespace P (hd u)"
    unfolding u_def by (simp_all add: hd_dropWhile)
  define v where "v = dropWhile (is_whitespace P) (rev u)"
  from u hu have "\<not> is_whitespace P (last (rev u))"
    by (simp add: last_rev)
  then have "\<exists>x \<in> set (rev u). \<not> is_whitespace P x"
    using u by (metis last_in_set rev_is_Nil_conv)
  then have v: "v \<noteq> []"
    unfolding v_def by (simp add: dropWhile_eq_Nil_conv)
  then have hv: "\<not> is_whitespace P (hd v)"
    unfolding v_def by (simp add: hd_dropWhile)
  obtain w where "rev u = w @ v"
    unfolding v_def by (metis takeWhile_dropWhile_id)
  with v have "last v = last (rev u)" by simp
  with u hu have lv: "\<not> is_whitespace P (last v)" by (simp add: last_rev)
  have "strip P s = rev v" by (simp add: strip_def u_def v_def)
  with v hv lv show ?thesis
    by (simp add: stripped_def hd_rev last_rev)
qed

lemma strip_idem: "strip P (strip P s) = strip P s"
  by (rule strip_stripped [OF stripped_strip])

lemma str_method_strip_idem:
  "str_method (strip P) (str_method (strip P) c) = str_method (strip P) c"
  by (cases c) (simp_all add: strip_idem)

lemma stripped_cong:
  assumes "map (is_whitespace P) u = map (is_whitespace P) t" "stripped P t"
  shows "stripped P u"
proof (cases "t = []")
  case True
  with assms(1) show ?thesis by (simp add: stripped_def)
next
  case False
  with assms(1) have u: "u \<noteq> []" by auto
  from False u have "is_whitespace P (hd u) = hd (map (is_whitespace P) u)"
       "is_whitespace P (last u) = last (map (is_whitespace P) u)"
       "is_whitespace P (hd t) = hd (map (is_whitespace P) t)"
       "is_whitespace P (last t) = last (map (is_whitespace P) t)"
    by (simp_all add: hd_map last_map)
  with assms False show ?thesis by (simp add: stripped_def)
qed

lemma ascii_text_strip: "ascii_text s \<Longrightarrow> ascii_text (strip P s)"
proof -
  have "set (strip P s) \<subseteq> set s"
    by (auto simp: strip_def dest!: set_dropWhileD)
  then show "ascii_text s \<Longrightarrow> ascii_text (strip P s)"
    by (auto simp: ascii_text_def)
qed

lemma to_lower_ascii: "c < 128 \<Longrightarrow> to_lower c < 128"
  by (simp add: to_lower_def is_upper_def)

lemma to_upper_ascii: "c < 128 \<Longrightarrow> to_upper c < 128"
  by (auto simp: to_upper_def is_lower_def)

lemma to_lower_letter:
  "(is_upper (to_lower c) \<or> is_lower (to_lower c)) = (is_upper c \<or> is_lower c)"
  by (auto simp: to_lower_def is_upper_def is_lower_def)

lemma to_upper_letter:
  "(is_upper (to_upper c) \<or> is_lower (to_upper c)) = (is_upper c \<or> is_lower c)"
  by (auto simp: to_upper_def is_upper_def is_lower_def)

lemma to_lower_idem: "to_lower (to_lower c) = to_lower c"
  by (auto simp: to_lower_def is_upper_def)

lemma to_upper_idem: "to_upper (to_upper c) = to_upper c"
  by (auto simp: to_upper_def is_lower_def)

lemma to_lower_to_upper: "to_lower (to_upper c) = to_lower c"
  by (auto simp: to_lower_def to_upper_def is_upper_def is_lower_def)

lemma to_upper_to_lower: "to_upper (to_lower c) = to_upper c"
  by (auto simp: to_lower_def to_upper_def is_upper_def is_lower_def)

lemma is_space_to_lower: "is_space (to_lower c) = is_space c"
  by (auto simp: to_lower_def is_upper_def is_space_def)

lemma is_space_to_upper: "is_space (to_upper c) = is_space c"
  by (auto simp: to_upper_def is_lower_def is_space_def)

lemma ascii_title_idem: "ascii_title b (ascii_title b s) = ascii_title b s"
  by (induction b s rule: ascii_title.induct)
     (simp_all add: to_lower_idem to_upper_idem to_lower_letter to_upper_letter)

lemma ascii_text_ascii_title: "ascii_text s \<Longrightarrow> ascii_text (ascii_title b s)"
  by (induction b s rule: ascii_title.induct)
     (auto simp: ascii_text_def to_lower_ascii to_upper_ascii)

lemma ascii_text_map_to_lower: "ascii_text s \<Longrightarrow> ascii_text (map to_lower s)"
  by (auto simp: ascii_text_def to_lower_ascii)

lemma spaces_ascii_title: "map is_space (ascii_title b s) = map is_space s"
  by (induction b s rule: ascii_title.induct) (simp_all add: is_space_to_lower is_space_to_upper)

lemma whitespace_ascii:
  assumes "ascii_tables P" "ascii_text s"
  shows "map (is_whitespace P) s = map is_space s"
  using assms by (auto simp: ascii_tables_def ascii_text_def)

lemma lower_ucs4_ascii:
  assumes "ascii_tables P" "c < 128"
  shows "lower_ucs4 P before c after = [to_lower c]"
  using assms by (simp add: lower_ucs4_def ascii_tables_def)

lemma lower_from_ascii:
  assumes "ascii_tables P" "ascii_text s"
  shows "lower_from P before s = map to_lower s"
  using assms(2)
proof (induction s arbitrary: before)
  case Nil
  then show ?case by simp
next
  case (Cons c s)
  then have "c < 128" "ascii_text s"
    by (simp_all add: ascii_text_def)
  with Cons.IH [of "before @ [c]"] lower_ucs4_ascii [OF assms(1), of c before s]
  show ?case by simp
qed

lemma title_from_ascii:
  assumes "ascii_tables P" "ascii_text s"
  shows "title_from P b before s = ascii_title b s"
  using assms(2)
proof (induction s arbitrary: b before)
  case Nil
  then show ?case by simp
next
  case (Cons c s)
  then have c: "c < 128" and s: "ascii_text s"
    by (simp_all add: ascii_text_def)
  from assms(1) c have "is_cased P c = (is_upper c \<or> is_lower c)" "to_title_full P c = [to_upper c]"
    by (simp_all add: ascii_tables_def)
  with Cons.IH [OF s, of "is_upper c \<or> is_lower c" "before @ [c]"]
    lower_ucs4_ascii [OF assms(1) c, of before s]
  show ?case by simp
qed

lemma title_ascii: "ascii_tables P \<Longrightarrow> ascii_text s \<Longrightarrow> title P s = ascii_title False s"
  by (simp add: title_def title_from_ascii)

lemma lower_ascii: "ascii_tables P \<Longrightarrow> ascii_text s \<Longrightarrow> lower P s = map to_lower s"
  by (simp add: lower_def lower_from_ascii)

lemma title_strip_stable:
  assumes "ascii_tables P" "ascii_text s"
  shows "title P (strip P (title P (strip P s))) = title P (strip P s)"
proof -
  let ?t = "strip P s"
  from assms(2) have a: "ascii_text ?t"
    by (rule ascii_text_strip)
  then have a': "ascii_text (ascii_title False ?t)"
    by (rule ascii_text_ascii_title)
  have "map (is_whitespace P) (ascii_title False ?t) = map (is_whitespace P) ?t"
    by (simp add: whitespace_ascii [OF assms(1) a] whitespace_ascii [OF assms(1) a']
        spaces_ascii_title)
  then have "stripped P (ascii_title False ?t)"
    using stripped_strip by (rule stripped_cong)
  then have "strip P (ascii_title False ?t) = ascii_title False ?t"
    by (rule strip_stripped)
  then show ?thesis
    by (simp add: title_ascii [OF assms(1) a] title_ascii [OF assms(1) a'] ascii_title_idem)
qed

lemma lower_strip_stable:
  assumes "ascii_tables P" "ascii_text s"
  shows "lower P (strip P (lower P (strip P s))) = lower P (strip P s)"
proof -
  let ?t = "strip P s"
  from assms(2) have a: "ascii_text ?t"
    by (rule ascii_text_strip)
  then have a': "ascii_text (map to_lower ?t)"
    by (rule ascii_text_map_to_lower)
  have "map (is_whitespace P) (map to_lower ?t) = map is_space (map to_lower ?t)"
    by (rule whitespace_ascii [OF assms(1) a'])
  also have "\<dots> = map is_space ?t"
    by (simp add: is_space_to_lower)
  also have "\<dots> = map (is_whitespace P) ?t"
    by (rule whitespace_ascii [OF assms(1) a, symmetric])
  finally have "map (is_whitespace P) (map to_lower ?t) = map (is_whitespace P) ?t" .
  then have "stripped P (map to_lower ?t)"
    using stripped_strip by (rule stripped_cong)
  then have "strip P (map to_lower ?t) = map to_lower ?t"
    by (rule strip_stripped)
  then show ?thesis
    by (simp add: lower_ascii [OF assms(1) a] lower_ascii [OF assms(1) a'] to_lower_idem)
qed

section \<open>Cleaned rows\<close>

lemma to_datetime_cases: "to_datetime P col c = Null \<or> (\<exists>d t. to_datetime P col c = Timestamp d t)"
  by (cases c) (auto split: option.splits)

lemma to_numeric_cases: "to_numeric P c = Null \<or> (\<exists>x. to_numeric P c = Num x)"
  by (cases c) (auto split: option.splits)

lemma clip01_cases: "clip01 c = Null \<or> (\<exists>x. clip01 c = Num x \<and> 0 \<le> x \<and> x \<le> 1)"
  by (cases c) auto

lemma clean_row_cells:
  "clean_row P df r ''order_date'' = dt_date (to_datetime P (deduplicated_dates df) (r ''order_date''))"
  "clean_row P df r ''quantity'' = to_numeric P (r ''quantity'')"
  "clean_row P df r ''unit_price'' = to_numeric P (r ''unit_price'')"
  "clean_row P df r ''region'' = str_method (title P) (str_method (strip P) (r ''region''))"
  "clean_row P df r ''category'' = str_method (title P) (str_method (strip P) (r ''category''))"
  "clean_row P df r ''product'' = str_method (strip P) (r ''product'')"
  "clean_row P df r ''status'' = str_method (lower P) (str_method (strip P) (r ''status''))"
  by (simp_all add: clean_row_def derive_row_def text_row_def coerce_row_def)

lemma str_method_strings: "str_method f c = Null \<or> (\<exists>s. str_method f c = Str s)"
  by (cases c) simp_all

lemma cleaned_row_clean_row:
  assumes "salvageable P df r"
  shows "cleaned_row P (clean_row P df r)"
proof -
  from assms obtain d t where "to_datetime P (deduplicated_dates df) (r ''order_date'') = Timestamp d t"
    using to_datetime_cases [of P "deduplicated_dates df" "r ''order_date''"]
    by (auto simp: salvageable_def)
  moreover from assms obtain q where "to_numeric P (r ''quantity'') = Num q"
    using to_numeric_cases [of P "r ''quantity''"] by (auto simp: salvageable_def)
  moreover from assms obtain p where "to_numeric P (r ''unit_price'') = Num p"
    using to_numeric_cases [of P "r ''unit_price''"] by (auto simp: salvageable_def)
  moreover from assms have "r ''order_id'' \<noteq> Null"
    by (simp add: salvageable_def)
  ultimately show ?thesis
    unfolding cleaned_row_def clean_row_cells clean_row_order_id clean_row_discount
      clean_row_total_revenue
    using clip01_cases [of "to_numeric P (r ''discount'')"]
      str_method_strings [of "title P" "str_method (strip P) (r ''region'')"]
      str_method_strings [of "title P" "str_method (strip P) (r ''category'')"]
      str_method_strings [of "strip P" "r ''product''"]
      str_method_strings [of "lower P" "str_method (strip P) (r ''status'')"]
    by (simp add: str_method_strip_idem clean_row_cells)
qed

lemma salvageable_cleaned_row:
  assumes "cleaned_row P r"
  shows "salvageable P df r"
  using assms unfolding cleaned_row_def salvageable_def by auto

lemma clean_row_cleaned_row:
  assumes "cleaned_row P r" "stable_row P r"
  shows "clean_row P df r = r"
proof -
  from assms(1) obtain d q p where c: "r ''order_date'' = Date d" "r ''quantity'' = Num q"
      "r ''unit_price'' = Num p"
    unfolding cleaned_row_def by blast
  from assms(1) have disc: "clip01 (to_numeric P (r ''discount'')) = r ''discount''"
    unfolding cleaned_row_def by auto
  from assms have cells:
    "str_method (title P) (str_method (strip P) (r ''region'')) = r ''region''"
    "str_method (title P) (str_method (strip P) (r ''category'')) = r ''category''"
    "str_method (strip P) (r ''product'') = r ''product''"
    "str_method (lower P) (str_method (strip P) (r ''status'')) = r ''status''"
    and revn: "round_cell P 2 (revenue P (r ''quantity'') (r ''unit_price'') (r ''discount'')) = r ''total_revenue''"
    unfolding cleaned_row_def stable_row_def by simp_all
  have 1: "coerce_row P (deduplicated_dates df) r = r(''order_date'' := Timestamp d 0)"
    unfolding coerce_row_def by (simp add: c disc fun_upd_idem)
  have 2: "text_row P (r(''order_date'' := Timestamp d 0)) = r(''order_date'' := Timestamp d 0)"
    unfolding text_row_def by (simp add: cells fun_upd_idem)
  have 3: "derive_row P (r(''order_date'' := Timestamp d 0)) = r"
    unfolding derive_row_def using c(1) revn by (simp add: fun_upd_idem)
  show ?thesis
    unfolding clean_row_def 1 2 3 ..
qed

lemma stable_row_fixed:
  assumes "clean_row P df r = r"
  shows "stable_row P r"
proof -
  from clean_row_cells(4,5,7) [of P df r]
  show ?thesis
    unfolding stable_row_def assms by simp
qed

lemma stable_row_ascii:
  assumes "ascii_tables P"
      and "\<forall>c \<in> set [''region'', ''category'', ''status'']. \<forall>s. r c = Str s \<longrightarrow> ascii_text s"
  shows "stable_row P (clean_row P df r)"
proof -
  have t: "\<And>c. c \<in> set [''region'', ''category'', ''status''] \<Longrightarrow>
      str_method (title P) (str_method (strip P) (str_method (title P) (str_method (strip P) (r c))))
        = str_method (title P) (str_method (strip P) (r c))"
  proof -
    fix c assume "c \<in> set [''region'', ''category'', ''status'']"
    with assms(2) have "\<forall>s. r c = Str s \<longrightarrow> ascii_text s" by blast
    then show "str_method (title P) (str_method (strip P) (str_method (title P) (str_method (strip P) (r c))))
        = str_method (title P) (str_method (strip P) (r c))"
      by (cases "r c") (simp_all add: title_strip_stable [OF assms(1)])
  qed
  have l: "str_method (lower P) (str_method (strip P) (str_method (lower P) (str_method (strip P) (r ''status''))))
        = str_method (lower P) (str_method (strip P) (r ''status''))"
  proof -
    from assms(2) have "\<forall>s. r ''status'' = Str s \<longrightarrow> ascii_text s" by simp
    then show ?thesis
      by (cases "r ''status''") (simp_all add: lower_strip_stable [OF assms(1)])
  qed
  show ?thesis
    unfolding stable_row_def clean_row_cells
    using t [of "''region''"] t [of "''category''"] l by simp
qed

lemma columns_cleaned:
  assumes "clean_and_transform P df = Inr (out, k)"
  shows "columns out = (if ''total_revenue'' \<in> set (columns df) then columns df
                        else columns df @ [''total_revenue''])"
proof -
  from assms obtain mid where req: "set REQUIRED_COLUMNS \<subseteq> set (columns df)"
    and mid: "normalise_text P (coerced P df) = Inr mid" and out: "out = derived P mid"
    unfolding clean_and_transform_Inr by blast
  from req have c: "columns (coerced P df) = columns df"
    by (rule columns_coerced)
  with req mid have "columns mid = columns df"
    using columns_normalise_text [of P "coerced P df" mid] by simp
  with req show ?thesis
    unfolding out by (simp add: columns_derived)
qed

lemma dtypes_cleaned:
  assumes "clean_and_transform P df = Inr (out, k)"
  shows "dtypes out =
     (dtypes df)(''quantity'' := Numeric, ''unit_price'' := Numeric, ''discount'' := Numeric,
        ''region'' := Object, ''category'' := Object, ''product'' := Object, ''status'' := Object,
        ''total_revenue'' := Numeric, ''order_date'' := Object)"
proof -
  from assms obtain mid where mid: "normalise_text P (coerced P df) = Inr mid" and out: "out = derived P mid"
    unfolding clean_and_transform_Inr by blast
  show ?thesis
    unfolding out dtypes_derived dtypes_normalise_text [OF mid] dtypes_coerced
    by (simp add: fun_eq_iff)
qed

lemma str_inferred_strings:
  assumes "\<forall>c \<in> set col. c = Null \<or> (\<exists>s. c = Str s)"
  shows "str_inferred col"
proof (cases "filter (\<lambda>c. c \<noteq> Null) col")
  case Nil
  then show ?thesis by (simp add: str_inferred_def)
next
  case (Cons v vs)
  then have "v \<in> set (filter (\<lambda>c. c \<noteq> Null) col)" by simp
  then have "v \<in> set col" "v \<noteq> Null" by simp_all
  with assms obtain s where "v = Str s" by blast
  with Cons show ?thesis by (simp add: str_inferred_def)
qed

lemma cleaned_row_text_cells:
  assumes "cleaned_row P r" "c \<in> set [''region'', ''category'', ''product'', ''status'']"
  shows "r c = Null \<or> (\<exists>s. r c = Str s)"
  using assms unfolding cleaned_row_def by blast

lemma rows_cleaned_are_cleaned:
  assumes "clean_and_transform P df = Inr (out, k)" "r \<in> set (rows out)"
  shows "cleaned_row P r"
  using assms(2) unfolding rows_cleaned [OF assms(1)]
  by (auto simp: cleaned_row_clean_row)


section \<open>Schema validation (claim C5)\<close>

text \<open>
  Claim C5, as amended. \<^verbatim>\<open>validate_schema\<close>, the check that \<^verbatim>\<open>clean_and_transform\<close>
  invokes, succeeds exactly when the batch has all ten required columns, whatever its
  number of rows; when it fails, the error names exactly the required columns that are
  absent. The check for an empty batch is made by the task \<^verbatim>\<open>validate_csv\<close> of the DAG,
  which fails an empty batch with its own error before looking at the columns and agrees
  with \<^verbatim>\<open>validate_schema\<close> on every other batch. Both checks return no frame: they
  change nothing.
\<close>

theorem validate_schema_columns_only:
  "(validate_schema df = Inr () \<longleftrightarrow> set REQUIRED_COLUMNS \<subseteq> set (columns df)) \<and>
   (\<forall>e. validate_schema df = Inl e \<longrightarrow>
      (\<exists>missing. e = ValueError_missing_columns missing \<and> missing \<noteq> [] \<and>
                 set missing = set REQUIRED_COLUMNS - set (columns df))) \<and>
   (validate_csv df = Inr () \<longleftrightarrow> \<not> empty df \<and> set REQUIRED_COLUMNS \<subseteq> set (columns df)) \<and>
   (empty df \<longrightarrow> validate_csv df = Inl ValueError_empty_csv) \<and>
   (\<not> empty df \<longrightarrow> validate_csv df = validate_schema df)"
  by (auto simp: validate_schema_def validate_csv_def Let_def filter_empty_conv)

text \<open>The batch of the repository's test \<^verbatim>\<open>test_missing_columns_raises\<close>: two columns,
  one row.\<close>

theorem validate_schema_columns_only_witness:
  "validate_csv \<lparr>columns = [''order_id'', ''product''], dtypes = (\<lambda>c. Object),
       rows = [(\<lambda>c. Null)(''order_id'' := Str (text_of ''x''), ''product'' := Str (text_of ''y''))]\<rparr>
     = Inl (ValueError_missing_columns
         [''customer_id'', ''category'', ''region'', ''quantity'', ''unit_price'', ''discount'',
          ''order_date'', ''status''])"
proof -
  let ?df = "\<lparr>columns = [''order_id'', ''product''], dtypes = (\<lambda>c. Object),
       rows = [(\<lambda>c. Null)(''order_id'' := Str (text_of ''x''), ''product'' := Str (text_of ''y''))]\<rparr>"
  have h: "\<not> empty ?df"
    by (simp add: empty_def)
  from validate_schema_columns_only [of ?df]
  have "\<not> empty ?df \<longrightarrow> validate_csv ?df = validate_schema ?df"
    by blast
  with h have "validate_csv ?df = validate_schema ?df"
    by blast
  moreover have "validate_schema ?df = Inl (ValueError_missing_columns
         [''customer_id'', ''category'', ''region'', ''quantity'', ''unit_price'', ''discount'',
          ''order_date'', ''status''])"
    by (simp add: validate_schema_def REQUIRED_COLUMNS_def)
  ultimately show ?thesis
    by simp
qed

text \<open>A batch with the ten required columns and no row passes \<^verbatim>\<open>validate_schema\<close>.\<close>

theorem validate_schema_accepts_empty_batch:
  "validate_schema \<lparr>columns = REQUIRED_COLUMNS, dtypes = (\<lambda>c. Object), rows = []\<rparr> = Inr ()
   \<and> len \<lparr>columns = REQUIRED_COLUMNS, dtypes = (\<lambda>c. Object), rows = []\<rparr> = 0"
  by (simp add: validate_schema_def len_def)

section \<open>Discount clamping (claim C8)\<close>

text \<open>
  Claim C8. Whenever \<^verbatim>\<open>clean_and_transform\<close> returns, every discount of the cleaned batch
  is missing or lies in \<open>[0, 1]\<close>; and a row that survives deduplication and the null-drop
  and whose discount coerces to the number \<open>x\<close> is kept whatever \<open>x\<close> is, with its
  discount moved to the nearest boundary: 0 below 0, 1 above 1, \<open>x\<close> itself in between.
\<close>

theorem discount_is_clamped:
  assumes "clean_and_transform P df = Inr (out, k)"
  shows "(\<forall>r' \<in> set (rows out).
            r' ''discount'' = Null \<or> (\<exists>x. r' ''discount'' = Num x \<and> 0 \<le> x \<and> x \<le> 1)) \<and>
         (\<forall>r x. first_occurrence df r \<and> salvageable P df r \<and> to_numeric P (r ''discount'') = Num x \<longrightarrow>
            clean_row P df r \<in> set (rows out) \<and>
            clean_row P df r ''discount'' = Num (if x < 0 then 0 else if 1 < x then 1 else x))"
proof (intro conjI ballI allI impI)
  fix r' assume "r' \<in> set (rows out)"
  then obtain r where r': "r' = clean_row P df r"
    unfolding rows_cleaned [OF assms] by auto
  show "r' ''discount'' = Null \<or> (\<exists>x. r' ''discount'' = Num x \<and> 0 \<le> x \<and> x \<le> 1)"
    unfolding r' clean_row_discount
    by (cases "to_numeric P (r ''discount'')") simp_all
next
  fix r x
  assume "first_occurrence df r \<and> salvageable P df r \<and> to_numeric P (r ''discount'') = Num x"
  then show "clean_row P df r \<in> set (rows out)"
    unfolding rows_cleaned [OF assms] by (simp add: first_rows_mem)
next
  fix r x
  assume "first_occurrence df r \<and> salvageable P df r \<and> to_numeric P (r ''discount'') = Num x"
  then show "clean_row P df r ''discount'' = Num (if x < 0 then 0 else if 1 < x then 1 else x)"
    by (simp add: clean_row_discount min_def max_def)
qed

text \<open>A discount of 1.5 is stored as 1 and a discount of -0.2 as 0.\<close>

theorem discount_is_clamped_witness:
  "\<exists>out k. clean_and_transform example_pandas
       (example_batch Object Numeric
          [example_row ''o1'' (Str (text_of ''north america'')) (Num (3 / 2)) (Str (text_of ''2024-06-01'')),
           example_row ''o2'' (Str (text_of ''europe'')) (Num (- 1 / 5)) (Str (text_of ''2024-07-15''))]) = Inr (out, k)
     \<and> (\<exists>r' \<in> set (rows out). r' ''order_id'' = Str (text_of ''o1'') \<and> r' ''discount'' = Num 1)
     \<and> (\<exists>r' \<in> set (rows out). r' ''order_id'' = Str (text_of ''o2'') \<and> r' ''discount'' = Num 0)"
proof -
  let ?r1 = "example_row ''o1'' (Str (text_of ''north america'')) (Num (3 / 2)) (Str (text_of ''2024-06-01''))"
  let ?r2 = "example_row ''o2'' (Str (text_of ''europe'')) (Num (- 1 / 5)) (Str (text_of ''2024-07-15''))"
  let ?df = "example_batch Object Numeric [?r1, ?r2]"
  have "text_columns_ok (coerced example_pandas ?df)"
    by (simp add: example_simps)
  from clean_and_transform_succeeds [OF columns_example_batch this]
  obtain out k where ok: "clean_and_transform example_pandas ?df = Inr (out, k)"
    by blast
  have h1: "first_occurrence ?df ?r1 \<and> salvageable example_pandas ?df ?r1
            \<and> to_numeric example_pandas (?r1 ''discount'') = Num (3 / 2)"
    by (simp add: first_occurrence_head salvageable_example example_row_simps)
  have h2: "first_occurrence ?df ?r2 \<and> salvageable example_pandas ?df ?r2
            \<and> to_numeric example_pandas (?r2 ''discount'') = Num (- 1 / 5)"
    by (simp add: first_occurrence_second salvageable_example example_row_simps)
  from discount_is_clamped [OF ok] h1
  have "clean_row example_pandas ?df ?r1 \<in> set (rows out) \<and>
        clean_row example_pandas ?df ?r1 ''discount'' = Num (if (3 / 2 :: rat) < 0 then 0 else if 1 < (3 / 2 :: rat) then 1 else 3 / 2)"
    by blast
  then have c1: "\<exists>r' \<in> set (rows out). r' ''order_id'' = Str (text_of ''o1'') \<and> r' ''discount'' = Num 1"
    by (intro bexI [of _ "clean_row example_pandas ?df ?r1"]) (simp_all add: clean_row_order_id example_row_simps)
  from discount_is_clamped [OF ok] h2
  have "clean_row example_pandas ?df ?r2 \<in> set (rows out) \<and>
        clean_row example_pandas ?df ?r2 ''discount'' = Num (if (- 1 / 5 :: rat) < 0 then 0 else if 1 < (- 1 / 5 :: rat) then 1 else - 1 / 5)"
    by blast
  then have c2: "\<exists>r' \<in> set (rows out). r' ''order_id'' = Str (text_of ''o2'') \<and> r' ''discount'' = Num 0"
    by (intro bexI [of _ "clean_row example_pandas ?df ?r2"]) (simp_all add: clean_row_order_id example_row_simps)
  from ok c1 c2 show ?thesis by blast
qed

text \<open>
  As stated the claim fails for a row that the null-drop removes: the discount of the row
  below is the number 1.5 and its date cannot be parsed. The row is rejected, not kept
  with a discount of 1: the cleaned batch has no row and one row is skipped.
\<close>

theorem numeric_discount_row_rejected:
  "(case clean_and_transform example_pandas
       (example_batch Object Numeric
          [example_row ''o1'' (Str (text_of ''north america'')) (Num (3 / 2)) (Str (text_of ''junk''))])
    of Inl e \<Rightarrow> None
     | Inr (out, k) \<Rightarrow> Some (map (\<lambda>r. r ''discount'') (rows out), k))
   = Some ([], 1)"
proof -
  let ?df = "example_batch Object Numeric
          [example_row ''o1'' (Str (text_of ''north america'')) (Num (3 / 2)) (Str (text_of ''junk''))]"
  have "text_columns_ok (coerced example_pandas ?df)"
    by (simp add: example_simps)
  from clean_and_transform_eval [OF columns_example_batch this]
  obtain out where "clean_and_transform example_pandas ?df =
                 Inr (out, int (len ?df) - int (length (filter (salvageable example_pandas ?df) (first_rows ?df))))"
     and "rows out = map (clean_row example_pandas ?df) (filter (salvageable example_pandas ?df) (first_rows ?df))"
    by blast
  then show ?thesis
    by (simp add: example_simps)
qed

section \<open>A text column without strings (claim C4)\<close>

text \<open>
  Claim C4 fails on the code. The batch below is what \<^verbatim>\<open>pd.read_csv\<close> makes of a file
  with the ten required columns and one data row whose \<^verbatim>\<open>region\<close> field is empty: the
  column \<^verbatim>\<open>region\<close> holds no string, so it is read with a numeric dtype. Schema
  validation accepts the batch, and \<^verbatim>\<open>df["region"].str\<close> raises
  \<^verbatim>\<open>AttributeError\<close> whatever the parsers do: the batch is rejected as a whole for a
  missing value in one row.
\<close>

theorem str_accessor_raises_on_empty_region:
  "validate_schema (example_batch Numeric Numeric [example_row ''o1'' Null (Num 0) (Str (text_of ''2024-06-01''))])
     = Inr ()
   \<and> clean_and_transform P
       (example_batch Numeric Numeric [example_row ''o1'' Null (Num 0) (Str (text_of ''2024-06-01''))])
     = Inl AttributeError_str_accessor"
proof -
  let ?df = "example_batch Numeric Numeric [example_row ''o1'' Null (Num 0) (Str (text_of ''2024-06-01''))]"
  have "dtypes ?df ''region'' = Numeric"
    by (simp add: dtypes_example_batch)
  then have "\<not> text_columns_ok (coerced P ?df)"
    by (simp add: text_columns_ok_coerced)
  then have "clean_and_transform P ?df = Inl AttributeError_str_accessor"
    by (rule clean_and_transform_raises [OF columns_example_batch])
  moreover have "validate_schema ?df = Inr ()"
    by (simp add: validate_schema_Inr columns_example_batch)
  ultimately show ?thesis by simp
qed

section \<open>A discount that cannot be coerced (claim C9)\<close>

text \<open>
  Claim C9, as amended. Whenever \<^verbatim>\<open>clean_and_transform\<close> returns, a row that is the first
  occurrence of its order identifier, whose order identifier, order date, quantity and unit
  price are present after coercion and whose discount cannot be coerced to a number is
  kept: the cleaned batch contains its cleaned form, with the same order identifier and
  with a missing discount and a missing total revenue.
\<close>

theorem uncoercible_discount_kept:
  assumes "clean_and_transform P df = Inr (out, k)"
  shows "\<forall>r. first_occurrence df r \<and> salvageable P df r \<and> to_numeric P (r ''discount'') = Null \<longrightarrow>
            clean_row P df r \<in> set (rows out) \<and>
            clean_row P df r ''order_id'' = r ''order_id'' \<and>
            clean_row P df r ''discount'' = Null \<and>
            clean_row P df r ''total_revenue'' = Null"
proof (intro allI impI)
  fix r
  assume h: "first_occurrence df r \<and> salvageable P df r \<and> to_numeric P (r ''discount'') = Null"
  then have "clean_row P df r \<in> set (rows out)"
    unfolding rows_cleaned [OF assms] by (simp add: first_rows_mem)
  moreover have "revenue P (to_numeric P (r ''quantity'')) (to_numeric P (r ''unit_price'')) Null = Null"
    by (cases "to_numeric P (r ''quantity'')"; cases "to_numeric P (r ''unit_price'')") simp_all
  ultimately show "clean_row P df r \<in> set (rows out) \<and>
            clean_row P df r ''order_id'' = r ''order_id'' \<and>
            clean_row P df r ''discount'' = Null \<and>
            clean_row P df r ''total_revenue'' = Null"
    using h by (simp add: clean_row_order_id clean_row_discount clean_row_total_revenue)
qed

text \<open>One row, with the discount \<^verbatim>\<open>ten percent\<close>.\<close>

theorem uncoercible_discount_kept_witness:
  "\<exists>out k. clean_and_transform example_pandas
       (example_batch Object Object
          [example_row ''o1'' (Str (text_of ''north america'')) (Str (text_of ''ten percent'')) (Str (text_of ''2024-06-01''))])
       = Inr (out, k)
     \<and> (\<exists>r' \<in> set (rows out). r' ''order_id'' = Str (text_of ''o1'') \<and> r' ''discount'' = Null
           \<and> r' ''total_revenue'' = Null)"
proof -
  let ?r = "example_row ''o1'' (Str (text_of ''north america'')) (Str (text_of ''ten percent'')) (Str (text_of ''2024-06-01''))"
  let ?df = "example_batch Object Object [?r]"
  have "text_columns_ok (coerced example_pandas ?df)"
    by (simp add: example_simps)
  from clean_and_transform_succeeds [OF columns_example_batch this]
  obtain out k where ok: "clean_and_transform example_pandas ?df = Inr (out, k)"
    by blast
  have h: "first_occurrence ?df ?r \<and> salvageable example_pandas ?df ?r
            \<and> to_numeric example_pandas (?r ''discount'') = Null"
    by (simp add: first_occurrence_head salvageable_example example_row_simps to_numeric_example)
  from uncoercible_discount_kept [OF ok] h
  have "clean_row example_pandas ?df ?r \<in> set (rows out) \<and>
        clean_row example_pandas ?df ?r ''order_id'' = ?r ''order_id'' \<and>
        clean_row example_pandas ?df ?r ''discount'' = Null \<and>
        clean_row example_pandas ?df ?r ''total_revenue'' = Null"
    by blast
  then have "\<exists>r' \<in> set (rows out). r' ''order_id'' = Str (text_of ''o1'') \<and> r' ''discount'' = Null
           \<and> r' ''total_revenue'' = Null"
    by (intro bexI [of _ "clean_row example_pandas ?df ?r"]) (simp_all add: example_row_simps)
  with ok show ?thesis by blast
qed

text \<open>
  As stated the claim fails for a repeated order identifier: the second row below has a
  discount that cannot be coerced and valid critical fields, and it is not kept. The
  cleaned batch has one row, the first, with its discount 0.1.
\<close>

theorem uncoercible_discount_duplicate_dropped:
  "(case clean_and_transform example_pandas
       (example_batch Object Object
          [example_row ''o1'' (Str (text_of ''north america'')) (Str (text_of ''0.1'')) (Str (text_of ''2024-06-01'')),
           example_row ''o1'' (Str (text_of ''north america'')) (Str (text_of ''ten percent'')) (Str (text_of ''2024-06-01''))])
    of Inl e \<Rightarrow> None
     | Inr (out, k) \<Rightarrow> Some (map (\<lambda>r. r ''discount'') (rows out), k))
   = Some ([Num (1 / 10)], 1)"
proof -
  let ?df = "example_batch Object Object
          [example_row ''o1'' (Str (text_of ''north america'')) (Str (text_of ''0.1'')) (Str (text_of ''2024-06-01'')),
           example_row ''o1'' (Str (text_of ''north america'')) (Str (text_of ''ten percent'')) (Str (text_of ''2024-06-01''))]"
  have "text_columns_ok (coerced example_pandas ?df)"
    by (simp add: example_simps)
  from clean_and_transform_eval [OF columns_example_batch this]
  obtain out where "clean_and_transform example_pandas ?df =
                 Inr (out, int (len ?df) - int (length (filter (salvageable example_pandas ?df) (first_rows ?df))))"
     and "rows out = map (clean_row example_pandas ?df) (filter (salvageable example_pandas ?df) (first_rows ?df))"
    by blast
  then show ?thesis
    by (simp add: example_simps clean_row_discount)
qed

section \<open>Deduplication: the first occurrence wins (claim C6)\<close>

text \<open>
  Claim C6, as amended. Whenever \<^verbatim>\<open>clean_and_transform\<close> returns, the cleaned batch has at
  most one row for each order identifier. Its rows are exactly the cleaned forms of the
  first occurrences that are salvageable, and cleaning keeps the order identifier: the row
  of an identifier carries the values of its first occurrence in input order, and it is
  there exactly when that first occurrence survives the null-drop. A later duplicate never
  stands in for a first occurrence that is dropped.
\<close>

theorem first_occurrence_wins:
  assumes "clean_and_transform P df = Inr (out, k)"
  shows "distinct (map (\<lambda>r. r ''order_id'') (rows out)) \<and>
         (\<forall>r'. r' \<in> set (rows out) \<longleftrightarrow>
                (\<exists>r. first_occurrence df r \<and> salvageable P df r \<and> r' = clean_row P df r)) \<and>
         (\<forall>r. clean_row P df r ''order_id'' = r ''order_id'')"
proof (intro conjI allI)
  show "distinct (map (\<lambda>r. r ''order_id'') (rows out))"
    by (rule distinct_order_ids_cleaned [OF assms])
next
  fix r'
  show "r' \<in> set (rows out) \<longleftrightarrow>
          (\<exists>r. first_occurrence df r \<and> salvageable P df r \<and> r' = clean_row P df r)"
    unfolding rows_cleaned [OF assms] by (auto simp: first_rows_mem)
next
  fix r
  show "clean_row P df r ''order_id'' = r ''order_id''"
    by (rule clean_row_order_id)
qed

text \<open>The batch of the repository's test \<^verbatim>\<open>test_clean_and_transform_basic\<close> in outline:
  the identifier of the first row comes again in the third row.\<close>

theorem first_occurrence_wins_witness:
  "\<exists>out k. clean_and_transform example_pandas
       (example_batch Object Numeric
          [example_row ''ord-001'' (Str (text_of ''north america'')) (Num (1 / 10)) (Str (text_of ''2024-06-01'')),
           example_row ''ord-002'' (Str (text_of ''europe'')) (Num 0) (Str (text_of ''2024-07-15'')),
           example_row ''ord-001'' (Str (text_of ''asia'')) (Num 0) (Str (text_of ''2024-07-15''))]) = Inr (out, k)
     \<and> distinct (map (\<lambda>r. r ''order_id'') (rows out))
     \<and> (\<exists>r' \<in> set (rows out). r' ''order_id'' = Str (text_of ''ord-001'') \<and> r' ''region'' = Str (text_of ''North America''))"
proof -
  let ?r1 = "example_row ''ord-001'' (Str (text_of ''north america'')) (Num (1 / 10)) (Str (text_of ''2024-06-01''))"
  let ?df = "example_batch Object Numeric
          [?r1,
           example_row ''ord-002'' (Str (text_of ''europe'')) (Num 0) (Str (text_of ''2024-07-15'')),
           example_row ''ord-001'' (Str (text_of ''asia'')) (Num 0) (Str (text_of ''2024-07-15''))]"
  have "text_columns_ok (coerced example_pandas ?df)"
    by (simp add: example_simps)
  from clean_and_transform_succeeds [OF columns_example_batch this]
  obtain out k where ok: "clean_and_transform example_pandas ?df = Inr (out, k)"
    by blast
  note w = first_occurrence_wins [OF ok]
  from w have d: "distinct (map (\<lambda>r. r ''order_id'') (rows out))"
    by blast
  have "first_occurrence ?df ?r1 \<and> salvageable example_pandas ?df ?r1"
    by (simp add: first_occurrence_head salvageable_example)
  with w have "clean_row example_pandas ?df ?r1 \<in> set (rows out)"
    by blast
  moreover have "clean_row example_pandas ?df ?r1 ''region'' = Str (text_of ''North America'')"
    by (simp add: clean_row_def derive_row_def text_row_def coerce_row_def example_row_simps)
       code_simp
  ultimately have "\<exists>r' \<in> set (rows out). r' ''order_id'' = Str (text_of ''ord-001'') \<and> r' ''region'' = Str (text_of ''North America'')"
    by (intro bexI [of _ "clean_row example_pandas ?df ?r1"]) (simp_all add: clean_row_order_id example_row_simps)
  with ok d show ?thesis by blast
qed

text \<open>
  As stated the claim fails when the first occurrence cannot be salvaged: the two rows
  below share an order identifier, the first has a date that cannot be parsed, the second
  is valid. Deduplication keeps the first, the null-drop removes it, and the cleaned batch
  has no row for the identifier: no row at all, with two rows skipped.
\<close>

theorem first_occurrence_dropped_leaves_none:
  "(case clean_and_transform example_pandas
       (example_batch Object Numeric
          [example_row ''o1'' (Str (text_of ''north america'')) (Num 0) (Str (text_of ''junk'')),
           example_row ''o1'' (Str (text_of ''north america'')) (Num 0) (Str (text_of ''2024-06-01''))])
    of Inl e \<Rightarrow> None
     | Inr (out, k) \<Rightarrow> Some (map (\<lambda>r. r ''order_id'') (rows out), k))
   = Some ([], 2)"
proof -
  let ?df = "example_batch Object Numeric
          [example_row ''o1'' (Str (text_of ''north america'')) (Num 0) (Str (text_of ''junk'')),
           example_row ''o1'' (Str (text_of ''north america'')) (Num 0) (Str (text_of ''2024-06-01''))]"
  have "text_columns_ok (coerced example_pandas ?df)"
    by (simp add: example_simps)
  from clean_and_transform_eval [OF columns_example_batch this]
  obtain out where "clean_and_transform example_pandas ?df =
                 Inr (out, int (len ?df) - int (length (filter (salvageable example_pandas ?df) (first_rows ?df))))"
     and "rows out = map (clean_row example_pandas ?df) (filter (salvageable example_pandas ?df) (first_rows ?df))"
    by blast
  then show ?thesis
    by (simp add: example_simps)
qed

section \<open>Idempotence (claim C3)\<close>

text \<open>A second pass over a cleaned batch: it returns, skips no row, keeps the columns and
  the dtypes, and cleans every row once more.\<close>

lemma second_pass:
  assumes "clean_and_transform P df = Inr (out, k)"
  shows "\<exists>out2. clean_and_transform P out = Inr (out2, 0) \<and> columns out2 = columns out \<and>
           dtypes out2 = dtypes out \<and> rows out2 = map (clean_row P out) (rows out)"
proof -
  note cleaned = rows_cleaned_are_cleaned [OF assms]
  have req: "set REQUIRED_COLUMNS \<subseteq> set (columns out)"
    using assms unfolding columns_cleaned [OF assms] clean_and_transform_Inr by auto
  have first: "first_rows out = rows out"
    unfolding first_rows_def
    by (rule keep_first_distinct [OF distinct_order_ids_cleaned [OF assms]]) simp
  have keep: "filter (salvageable P out) (rows out) = rows out"
    using cleaned by (simp add: salvageable_cleaned_row)
  have "text_columns_ok (coerced P out)"
    unfolding text_columns_ok_coerced first keep
  proof (intro ballI conjI)
    fix c assume c: "c \<in> set [''region'', ''category'', ''product'', ''status'']"
    then show "dtypes out c = Object"
      unfolding dtypes_cleaned [OF assms] by auto
    have "\<forall>x \<in> set (map (\<lambda>r. r c) (rows out)). x = Null \<or> (\<exists>s. x = Str s)"
    proof
      fix x assume "x \<in> set (map (\<lambda>r. r c) (rows out))"
      then obtain r where "r \<in> set (rows out)" "x = r c" by auto
      with cleaned_row_text_cells [OF cleaned c] show "x = Null \<or> (\<exists>s. x = Str s)"
        by blast
    qed
    then show "str_inferred (map (\<lambda>r. r c) (rows out))"
      by (rule str_inferred_strings)
  qed
  from clean_and_transform_eval [OF req this]
  obtain out2 where ok2: "clean_and_transform P out =
        Inr (out2, int (len out) - int (length (filter (salvageable P out) (first_rows out))))"
    and rows2: "rows out2 = map (clean_row P out) (filter (salvageable P out) (first_rows out))"
    by blast
  from rows2 have r: "rows out2 = map (clean_row P out) (rows out)"
    by (simp add: first keep)
  have "''total_revenue'' \<in> set (columns out)"
    unfolding columns_cleaned [OF assms] by simp
  then have c: "columns out2 = columns out"
    unfolding columns_cleaned [OF ok2] by simp
  have d: "dtypes out2 = dtypes out"
    unfolding dtypes_cleaned [OF ok2] unfolding dtypes_cleaned [OF assms]
    by (simp add: fun_eq_iff)
  from ok2 have "clean_and_transform P out = Inr (out2, 0)"
    by (simp add: first keep len_def)
  with r c d show ?thesis
    by blast
qed

lemma text_stable_ascii:
  assumes "clean_and_transform P df = Inr (out, k)" "ascii_tables P" "ascii_columns df"
  shows "text_stable P out"
  unfolding text_stable_def
proof
  fix r' assume "r' \<in> set (rows out)"
  then obtain r where r: "r \<in> set (first_rows df)" and r': "r' = clean_row P df r"
    unfolding rows_cleaned [OF assms(1)] by auto
  from r have "r \<in> set (rows df)"
    unfolding first_rows_def using keep_first_subset by blast
  with assms(3) have "\<forall>c \<in> set [''region'', ''category'', ''status'']. \<forall>s. r c = Str s \<longrightarrow> ascii_text s"
    unfolding ascii_columns_def by blast
  from stable_row_ascii [OF assms(2) this] show "stable_row P r'"
    unfolding r' .
qed

text \<open>
  Claim C3. Whenever \<^verbatim>\<open>clean_and_transform\<close> returns a cleaned batch, applying it to that
  batch returns a batch and skips no row, and the batch it returns is the same batch
  (columns, dtypes and rows) exactly when the text of the batch is stable: title-casing
  the stripped region and category and lower-casing the stripped status of every row
  changes nothing. The text is stable whenever the region, category and status of the
  input are ASCII text and the Unicode tables say of the ASCII code points what Unicode
  says.
\<close>

theorem clean_and_transform_idempotent:
  assumes "clean_and_transform P df = Inr (out, k)"
  shows "(\<exists>out2. clean_and_transform P out = Inr (out2, 0)) \<and>
         (clean_and_transform P out = Inr (out, 0) \<longleftrightarrow> text_stable P out) \<and>
         (ascii_tables P \<and> ascii_columns df \<longrightarrow> clean_and_transform P out = Inr (out, 0))"
proof -
  note cleaned = rows_cleaned_are_cleaned [OF assms]
  from second_pass [OF assms] obtain out2 where ok2: "clean_and_transform P out = Inr (out2, 0)"
    and c: "columns out2 = columns out" and d: "dtypes out2 = dtypes out"
    and r: "rows out2 = map (clean_row P out) (rows out)"
    by blast
  have a: "clean_and_transform P out = Inr (out, 0)" if "text_stable P out"
  proof -
    from that cleaned have "map (clean_row P out) (rows out) = rows out"
      unfolding text_stable_def by (simp add: map_idI clean_row_cleaned_row)
    with r c d have "out2 = out"
      by simp
    with ok2 show ?thesis
      by simp
  qed
  have b: "text_stable P out" if "clean_and_transform P out = Inr (out, 0)"
  proof -
    from that ok2 have "out2 = out"
      by simp
    with r have "map (clean_row P out) (rows out) = map id (rows out)"
      by simp
    then have "\<forall>x \<in> set (rows out). clean_row P out x = x"
      unfolding map_eq_conv by simp
    then show ?thesis
      unfolding text_stable_def using stable_row_fixed [of P out] by blast
  qed
  from ok2 a b text_stable_ascii [OF assms] show ?thesis
    by blast
qed

lemma ascii_tables_example: "ascii_tables example_pandas"
  unfolding ascii_tables_def example_pandas_def
  by (auto simp add: to_lower_def to_upper_def is_upper_def is_lower_def)

text \<open>Three rows of ASCII text, the third repeating the identifier of the first: the
  cleaned batch is a fixed point.\<close>

theorem clean_and_transform_idempotent_witness:
  "\<exists>out k. clean_and_transform example_pandas
       (example_batch Object Numeric
          [example_row ''ord-001'' (Str (text_of ''north america'')) (Num (1 / 10)) (Str (text_of ''2024-06-01'')),
           example_row ''ord-002'' (Str (text_of ''europe'')) (Num 0) (Str (text_of ''2024-07-15'')),
           example_row ''ord-001'' (Str (text_of ''north america'')) (Num (1 / 10)) (Str (text_of ''2024-06-01''))])
       = Inr (out, k)
     \<and> k = 1
     \<and> text_stable example_pandas out
     \<and> clean_and_transform example_pandas out = Inr (out, 0)"
proof -
  let ?df = "example_batch Object Numeric
          [example_row ''ord-001'' (Str (text_of ''north america'')) (Num (1 / 10)) (Str (text_of ''2024-06-01'')),
           example_row ''ord-002'' (Str (text_of ''europe'')) (Num 0) (Str (text_of ''2024-07-15'')),
           example_row ''ord-001'' (Str (text_of ''north america'')) (Num (1 / 10)) (Str (text_of ''2024-06-01''))]"
  have "text_columns_ok (coerced example_pandas ?df)"
    by (simp add: example_simps)
  from clean_and_transform_eval [OF columns_example_batch this]
  obtain out where ok: "clean_and_transform example_pandas ?df =
      Inr (out, int (len ?df) - int (length (filter (salvageable example_pandas ?df) (first_rows ?df))))"
    by blast
  have k: "int (len ?df) - int (length (filter (salvageable example_pandas ?df) (first_rows ?df))) = 1"
    by (simp add: example_simps)
  have ascii: "ascii_columns ?df"
    unfolding ascii_columns_def example_batch_def
    by (simp add: example_row_simps ascii_text_def text_of_def)
  note idem = clean_and_transform_idempotent [OF ok]
  from idem ascii_tables_example ascii
  have fixed: "clean_and_transform example_pandas out = Inr (out, 0)"
    by blast
  with idem have "text_stable example_pandas out"
    by blast
  with ok k fixed show ?thesis by blast
qed

text \<open>
  As stated the claim fails on text that title-casing does not leave alone. The region of
  the row below is TURKIYE written with U+00DC and U+0130, a capital I with a dot above.
  The first pass lower-cases U+0130 to an i followed by the combining dot U+0307, which is
  not a cased character, so the second pass capitalises the y that follows it: the
  batch returned by the second pass differs from the batch returned by the first.
\<close>

theorem title_case_changes_cleaned_region:
  "(case clean_and_transform example_pandas
       (example_batch Object Numeric
          [example_row ''o1'' (Str [84, 220, 82, 75, 304, 89, 69]) (Num 0) (Str (text_of ''2024-06-01''))])
    of Inl e \<Rightarrow> None
     | Inr (out, k) \<Rightarrow>
        (case clean_and_transform example_pandas out
         of Inl e \<Rightarrow> None
          | Inr (out2, k2) \<Rightarrow> Some (map (\<lambda>r. r ''region'') (rows out),
                                   map (\<lambda>r. r ''region'') (rows out2), out2 = out)))
   = Some ([Str [84, 252, 114, 107, 105, 775, 121, 101]],
           [Str [84, 252, 114, 107, 105, 775, 89, 101]], False)"
proof -
  let ?r = "example_row ''o1'' (Str [84, 220, 82, 75, 304, 89, 69]) (Num 0) (Str (text_of ''2024-06-01''))"
  let ?df = "example_batch Object Numeric [?r]"
  have "text_columns_ok (coerced example_pandas ?df)"
    by (simp add: example_simps)
  from clean_and_transform_eval [OF columns_example_batch this]
  obtain out where ok: "clean_and_transform example_pandas ?df =
                 Inr (out, int (len ?df) - int (length (filter (salvageable example_pandas ?df) (first_rows ?df))))"
     and rows1: "rows out = map (clean_row example_pandas ?df) (filter (salvageable example_pandas ?df) (first_rows ?df))"
    by blast
  from second_pass [OF ok] obtain out2 where ok2: "clean_and_transform example_pandas out = Inr (out2, 0)"
    and rows2: "rows out2 = map (clean_row example_pandas out) (rows out)"
    by blast
  have white: "\<not> is_whitespace example_pandas 84" "\<not> is_whitespace example_pandas 69"
      "\<not> is_whitespace example_pandas 101"
    by (simp_all add: example_pandas_def is_space_def)
  have s1: "strip example_pandas [84, 220, 82, 75, 304, 89, 69] = [84, 220, 82, 75, 304, 89, 69]"
    by (simp add: strip_def white)
  have t1: "title example_pandas [84, 220, 82, 75, 304, 89, 69] = [84, 252, 114, 107, 105, 775, 121, 101]"
    by (simp add: title_def lower_ucs4_def example_pandas_def is_upper_def is_lower_def)
  have s2: "strip example_pandas [84, 252, 114, 107, 105, 775, 121, 101] = [84, 252, 114, 107, 105, 775, 121, 101]"
    by (simp add: strip_def white)
  have t2: "title example_pandas [84, 252, 114, 107, 105, 775, 121, 101] = [84, 252, 114, 107, 105, 775, 89, 101]"
    by (simp add: title_def lower_ucs4_def example_pandas_def is_upper_def is_lower_def)
  have r1: "map (\<lambda>r. r ''region'') (rows out) = [Str [84, 252, 114, 107, 105, 775, 121, 101]]"
    unfolding rows1 by (simp add: example_simps clean_row_cells s1 t1)
  have r2: "map (\<lambda>r. r ''region'') (rows out2) = [Str [84, 252, 114, 107, 105, 775, 89, 101]]"
    unfolding rows2 rows1 by (simp add: example_simps clean_row_cells s1 t1 s2 t2)
  from r1 r2 have "out2 \<noteq> out"
    by auto
  with ok ok2 r1 r2 show ?thesis
    by simp
qed

section \<open>Empty batches leave the connection alone (claim C10)\<close>

text \<open>
  Claim C10. On an empty cleaned batch \<^verbatim>\<open>upsert_orders\<close> returns \<open>(0, 0)\<close>, on an empty
  aggregation \<^verbatim>\<open>upsert_purchased_products\<close> returns at once, and both hand the
  connection back as it was: no statement is counted as executed, the working state of
  the transaction is the same, and a fault scheduled for the next statement is not met.
\<close>

theorem empty_batch_executes_nothing:
  "(empty df \<longrightarrow> upsert_orders df conn = Inr ((0, 0), conn)) \<and>
   (empty agg_df \<longrightarrow> upsert_purchased_products agg_df conn = Inr ((), conn))"
  by (simp add: upsert_orders_def upsert_purchased_products_def)

text \<open>A batch with the ten columns and no row, on a connection whose next statement
  would raise.\<close>

theorem empty_batch_executes_nothing_witness:
  "upsert_orders \<lparr>columns = REQUIRED_COLUMNS, dtypes = (\<lambda>c. Object), rows = []\<rparr>
       \<lparr>working = \<lparr>orders = Map.empty, purchased_products = Map.empty, pipeline_runs = []\<rparr>,
        executed = 0, faults = Some 0, now = Timestamp 19875 0\<rparr>
     = Inr ((0, 0),
        \<lparr>working = \<lparr>orders = Map.empty, purchased_products = Map.empty, pipeline_runs = []\<rparr>,
         executed = 0, faults = Some 0, now = Timestamp 19875 0\<rparr>)
   \<and> upsert_purchased_products \<lparr>columns = AGG_COLUMNS, dtypes = (\<lambda>c. Object), rows = []\<rparr>
       \<lparr>working = \<lparr>orders = Map.empty, purchased_products = Map.empty, pipeline_runs = []\<rparr>,
        executed = 0, faults = Some 0, now = Timestamp 19875 0\<rparr>
     = Inr ((),
        \<lparr>working = \<lparr>orders = Map.empty, purchased_products = Map.empty, pipeline_runs = []\<rparr>,
         executed = 0, faults = Some 0, now = Timestamp 19875 0\<rparr>)"
proof -
  let ?conn = "\<lparr>working = \<lparr>orders = Map.empty, purchased_products = Map.empty, pipeline_runs = []\<rparr>,
        executed = 0, faults = Some 0, now = Timestamp 19875 0\<rparr>"
  have e1: "empty \<lparr>columns = REQUIRED_COLUMNS, dtypes = (\<lambda>c. Object), rows = []\<rparr>"
    and e2: "empty \<lparr>columns = AGG_COLUMNS, dtypes = (\<lambda>c. Object), rows = []\<rparr>"
    by (simp_all add: empty_def)
  from empty_batch_executes_nothing
    [of "\<lparr>columns = REQUIRED_COLUMNS, dtypes = (\<lambda>c. Object), rows = []\<rparr>" ?conn
        "\<lparr>columns = AGG_COLUMNS, dtypes = (\<lambda>c. Object), rows = []\<rparr>"]
    e1 e2
  show ?thesis by blast
qed

section \<open>Accumulation in the product table (claim C2)\<close>

lemma upsert_product_other:
  "e ''product'' \<noteq> p \<Longrightarrow> upsert_product t e tbl p = tbl p"
  by (auto simp add: upsert_product_def split: option.splits)

lemma upsert_product_conflict:
  assumes "tbl (e ''product'') = Some old"
  shows "\<exists>new. upsert_product t e tbl (e ''product'') = Some new \<and>
           new ''total_units_sold'' = sql_add (old ''total_units_sold'') (e ''total_units_sold'') \<and>
           new ''total_revenue'' = sql_add (old ''total_revenue'') (e ''total_revenue'') \<and>
           new ''avg_discount'' = e ''avg_discount'' \<and>
           new ''last_purchased_date'' =
             greatest (old ''last_purchased_date'') (e ''last_purchased_date'')"
  using assms by (simp add: upsert_product_def)

lemma fold_upsert_product_other:
  "\<forall>l \<in> set loads. snd l ''product'' \<noteq> p \<Longrightarrow>
   fold (\<lambda>l. upsert_product (fst l) (snd l)) loads tbl p = tbl p"
  by (induction loads arbitrary: tbl) (simp_all add: upsert_product_other)

lemma loads_for_Cons:
  "loads_for p (l # loads) = (if snd l ''product'' = p then l # loads_for p loads else loads_for p loads)"
  by (simp add: loads_for_def)

text \<open>
  Claim C2, as amended. Let a product have a stored row with numeric totals, and let any
  sequence of aggregation records be upserted, those of the product carrying numeric
  totals. Then the stored \<^verbatim>\<open>total_units_sold\<close> and \<^verbatim>\<open>total_revenue\<close> are the old values
  plus the sum of the incoming ones; \<^verbatim>\<open>last_purchased_date\<close> is \<^verbatim>\<open>GREATEST\<close> folded over
  the incoming dates; \<^verbatim>\<open>avg_discount\<close> is the value of the last incoming record of the
  product; and a total does not decrease provided its incoming values are not negative.
\<close>

theorem product_totals_accumulate:
  assumes "tbl p = Some old"
      and "old ''total_units_sold'' = Num a" and "old ''total_revenue'' = Num b"
      and "\<forall>l \<in> set (loads_for p loads).
             \<exists>u v. snd l ''total_units_sold'' = Num u \<and> snd l ''total_revenue'' = Num v"
  shows "\<exists>new. fold (\<lambda>l. upsert_product (fst l) (snd l)) loads tbl p = Some new \<and>
           new ''total_units_sold'' =
             Num (a + sum_list (numbers (map (\<lambda>l. snd l ''total_units_sold'') (loads_for p loads)))) \<and>
           new ''total_revenue'' =
             Num (b + sum_list (numbers (map (\<lambda>l. snd l ''total_revenue'') (loads_for p loads)))) \<and>
           new ''last_purchased_date'' =
             fold (\<lambda>l d. greatest d (snd l ''last_purchased_date'')) (loads_for p loads)
               (old ''last_purchased_date'') \<and>
           (loads_for p loads \<noteq> [] \<longrightarrow>
              new ''avg_discount'' = snd (last (loads_for p loads)) ''avg_discount'') \<and>
           ((\<forall>x \<in> set (numbers (map (\<lambda>l. snd l ''total_units_sold'') (loads_for p loads))). 0 \<le> x) \<longrightarrow>
              a \<le> a + sum_list (numbers (map (\<lambda>l. snd l ''total_units_sold'') (loads_for p loads)))) \<and>
           ((\<forall>x \<in> set (numbers (map (\<lambda>l. snd l ''total_revenue'') (loads_for p loads))). 0 \<le> x) \<longrightarrow>
              b \<le> b + sum_list (numbers (map (\<lambda>l. snd l ''total_revenue'') (loads_for p loads))))"
  using assms
proof (induction loads arbitrary: tbl old a b)
  case Nil
  then show ?case by (simp add: loads_for_def)
next
  case (Cons l loads)
  show ?case
  proof (cases "snd l ''product'' = p")
    case False
    then have same: "upsert_product (fst l) (snd l) tbl p = Some old"
      using Cons.prems(1) by (simp add: upsert_product_other)
    from False Cons.prems(4) have rest: "\<forall>l \<in> set (loads_for p loads).
             \<exists>u v. snd l ''total_units_sold'' = Num u \<and> snd l ''total_revenue'' = Num v"
      by (simp add: loads_for_Cons)
    from Cons.IH [of "upsert_product (fst l) (snd l) tbl" old a b, OF same Cons.prems(2,3) rest] False
    show ?thesis by (simp add: loads_for_Cons)
  next
    case True
    with Cons.prems(4) obtain u v where l: "snd l ''product'' = p"
        "snd l ''total_units_sold'' = Num u" "snd l ''total_revenue'' = Num v"
      by (auto simp: loads_for_Cons)
    from upsert_product_conflict [of tbl "snd l" old "fst l"] Cons.prems(1) l(1)
    obtain mid where mid: "upsert_product (fst l) (snd l) tbl p = Some mid"
        "mid ''total_units_sold'' = sql_add (old ''total_units_sold'') (snd l ''total_units_sold'')"
        "mid ''total_revenue'' = sql_add (old ''total_revenue'') (snd l ''total_revenue'')"
        "mid ''avg_discount'' = snd l ''avg_discount''"
        "mid ''last_purchased_date'' =
           greatest (old ''last_purchased_date'') (snd l ''last_purchased_date'')"
      by auto
    from mid(2,3) Cons.prems(2,3) l have m: "mid ''total_units_sold'' = Num (a + u)"
        "mid ''total_revenue'' = Num (b + v)"
      by simp_all
    from True Cons.prems(4) have rest: "\<forall>l \<in> set (loads_for p loads).
             \<exists>u v. snd l ''total_units_sold'' = Num u \<and> snd l ''total_revenue'' = Num v"
      by (simp add: loads_for_Cons)
    from Cons.IH [of "upsert_product (fst l) (snd l) tbl" mid "a + u" "b + v", OF mid(1) m rest]
    obtain new where new: "fold (\<lambda>l. upsert_product (fst l) (snd l)) loads
          (upsert_product (fst l) (snd l) tbl) p = Some new"
        "new ''total_units_sold'' =
           Num (a + u + sum_list (numbers (map (\<lambda>l. snd l ''total_units_sold'') (loads_for p loads))))"
        "new ''total_revenue'' =
           Num (b + v + sum_list (numbers (map (\<lambda>l. snd l ''total_revenue'') (loads_for p loads))))"
        "new ''last_purchased_date'' =
           fold (\<lambda>l d. greatest d (snd l ''last_purchased_date'')) (loads_for p loads)
             (mid ''last_purchased_date'')"
        "loads_for p loads \<noteq> [] \<longrightarrow> new ''avg_discount'' = snd (last (loads_for p loads)) ''avg_discount''"
      by blast
    have unchanged: "loads_for p loads = [] \<Longrightarrow> new = mid"
    proof -
      assume "loads_for p loads = []"
      then have "\<forall>l \<in> set loads. snd l ''product'' \<noteq> p"
        by (auto simp: loads_for_def filter_empty_conv)
      then have "fold (\<lambda>l. upsert_product (fst l) (snd l)) loads
          (upsert_product (fst l) (snd l) tbl) p = upsert_product (fst l) (snd l) tbl p"
        by (rule fold_upsert_product_other)
      with new(1) mid(1) show "new = mid" by simp
    qed
    have avg: "new ''avg_discount'' = snd (last (l # loads_for p loads)) ''avg_discount''"
    proof (cases "loads_for p loads = []")
      case True
      then have "new = mid" by (rule unchanged)
      with True mid(4) show ?thesis by simp
    next
      case False
      with new(5) show ?thesis by simp
    qed
    show ?thesis
      apply (rule exI [of _ new])
      using new(1-4) avg mid(5) l
      apply (simp add: add.assoc loads_for_Cons)
      apply (auto intro!: add_nonneg_nonneg sum_list_nonneg)
      done
  qed
qed

text \<open>The stored row has 5 units; a load of 3 units for it and a load for another product
  follow: 8 units are stored, and the average discount is that of the load alone.\<close>

theorem product_totals_accumulate_witness:
  "\<exists>new. fold (\<lambda>l. upsert_product (fst l) (snd l))
            [(Timestamp 19919 0, example_product ''Laptop'' 3 30 (1 / 5) 19919),
             (Timestamp 19919 0, example_product ''Shoes'' 1 50 0 19919)]
            [Str (text_of ''Laptop'') \<mapsto> example_product ''Laptop'' 5 100 (1 / 10) 19875]
            (Str (text_of ''Laptop'')) = Some new
     \<and> new ''total_units_sold'' = Num 8 \<and> new ''total_revenue'' = Num 130
     \<and> new ''avg_discount'' = Num (1 / 5) \<and> new ''last_purchased_date'' = Date 19919"
proof -
  let ?old = "example_product ''Laptop'' 5 100 (1 / 10) 19875"
  let ?loads = "[(Timestamp 19919 0, example_product ''Laptop'' 3 30 (1 / 5) 19919),
             (Timestamp 19919 0, example_product ''Shoes'' 1 50 0 19919)]"
  have lf: "loads_for (Str (text_of ''Laptop'')) ?loads =
        [(Timestamp 19919 0, example_product ''Laptop'' 3 30 (1 / 5) 19919)]"
    by (simp add: loads_for_def example_product_def)
  have h1: "[Str (text_of ''Laptop'') \<mapsto> ?old] (Str (text_of ''Laptop'')) = Some ?old"
    by simp
  have h2: "?old ''total_units_sold'' = Num 5" and h3: "?old ''total_revenue'' = Num 100"
    by (simp_all add: example_product_def)
  have h4: "\<forall>l \<in> set (loads_for (Str (text_of ''Laptop'')) ?loads).
             \<exists>u v. snd l ''total_units_sold'' = Num u \<and> snd l ''total_revenue'' = Num v"
    unfolding lf by (simp add: example_product_def)
  from product_totals_accumulate
    [of "[Str (text_of ''Laptop'') \<mapsto> ?old]" "Str (text_of ''Laptop'')" ?old 5 100 ?loads, OF h1 h2 h3 h4]
  show ?thesis
    unfolding lf
    apply (elim exE conjE)
    subgoal for new
      apply (rule exI [of _ new])
      apply (simp add: example_product_def)
      done
    done
qed

lemma paginate_short: "xs \<noteq> [] \<Longrightarrow> length xs \<le> n \<Longrightarrow> paginate n xs = [xs]"
  by (subst paginate.simps, subst paginate.simps) (cases xs, auto)

text \<open>
  As stated the claim fails: the totals are not monotone. A batch whose only order of a
  product has the quantity -3 is accepted by the cleaning (no step checks the sign) and
  aggregates to -3 units; upserted over a stored total of 5 units and 100 in revenue it
  leaves 2 units and 70.
\<close>

theorem negative_units_decrease_total:
  "(case upsert_purchased_products
           \<lparr>columns = AGG_COLUMNS, dtypes = (\<lambda>c. Object),
              rows = [example_product ''Laptop'' (- 3) (- 30) 0 19919]\<rparr>
           \<lparr>working = \<lparr>orders = Map.empty,
                        purchased_products =
                          [Str (text_of ''Laptop'') \<mapsto> example_product ''Laptop'' 5 100 (1 / 10) 19875],
                        pipeline_runs = []\<rparr>,
              executed = 0, faults = None, now = Timestamp 19919 0\<rparr>
    of Inl e \<Rightarrow> None
     | Inr (u, conn) \<Rightarrow>
         map_option (\<lambda>r. (r ''total_units_sold'', r ''total_revenue''))
           (purchased_products (working conn) (Str (text_of ''Laptop''))))
   = Some (Num 2, Num 70)"
  by (simp add: upsert_purchased_products_def empty_def AGG_COLUMNS_def records_of_def
      execute_values_def paginate_short execute_def products_statement_def
      on_conflict_statement_def then_do_def upsert_product_def example_product_def)

section \<open>Product aggregation (claim C7)\<close>




lemma build_product_aggregations_Inr:
  assumes "set AGG_INPUT_COLUMNS \<subseteq> set (columns df)"
  shows "\<exists>agg. build_product_aggregations P df = Inr agg \<and>
           columns agg = AGG_COLUMNS \<and>
           rows agg = map (\<lambda>k. (agg_row P df k)
                        (''total_revenue'' := round_cell P 2 (agg_row P df k ''total_revenue''),
                         ''avg_discount'' := round_cell P 4 (agg_row P df k ''avg_discount'')))
                      (group_keys df)"
proof -
  from assms have "filter (\<lambda>c. c \<notin> set (columns df)) AGG_INPUT_COLUMNS = []"
    by (auto simp: filter_empty_conv)
  then show ?thesis
    unfolding build_product_aggregations_def Let_def
    by (simp add: rows_setitem columns_setitem comp_def AGG_COLUMNS_def)
qed

lemma agg_row_cells:
  "agg_row P df k ''product'' = fst k"
  "agg_row P df k ''category'' = snd k"
  "agg_row P df k ''total_units_sold'' = agg_sum P (map (\<lambda>r. r ''quantity'') (group_rows df k))"
  "agg_row P df k ''total_revenue'' = agg_sum P (map (\<lambda>r. r ''total_revenue'') (group_rows df k))"
  "agg_row P df k ''avg_discount'' = agg_mean P (map (\<lambda>r. r ''discount'') (group_rows df k))"
  "agg_row P df k ''last_purchased_date'' = agg_max (map (\<lambda>r. r ''order_date'') (group_rows df k))"
  by (simp_all add: agg_row_def Let_def)






lemma example_order_cells:
  "example_order i n c q t d y ''product'' = Str (text_of n)"
  "example_order i n c q t d y ''category'' = Str (text_of c)"
  "example_order i n c q t d y ''order_id'' = Str (text_of i)"
  "example_order i n c q t d y ''quantity'' = Num q"
  "example_order i n c q t d y ''total_revenue'' = Num t"
  "example_order i n c q t d y ''discount'' = d"
  "example_order i n c q t d y ''order_date'' = Date y"
  by (simp_all add: example_order_def)

lemma columns_example_cleaned:
  "set AGG_INPUT_COLUMNS \<subseteq> set (columns (example_cleaned rs))"
  by (simp add: example_cleaned_def AGG_INPUT_COLUMNS_def REQUIRED_COLUMNS_def)

lemma rows_example_cleaned: "rows (example_cleaned rs) = rs"
  by (simp add: example_cleaned_def)



section \<open>The load transaction (claim C1)\<close>

lemma get_connection_Inl:
  "get_connection srv body = (Inl e, srv') \<Longrightarrow> srv' = srv"
  by (auto simp: get_connection_def Let_def split: sum.splits prod.splits if_splits)

lemma get_connection_Inr:
  "get_connection srv body = (Inr x, srv') \<Longrightarrow>
     \<exists>conn'. body (connect srv) = Inr (x, conn') \<and> \<not> commit_fails srv \<and>
             srv' = srv\<lparr>database := working conn'\<rparr>"
  by (auto simp: get_connection_def Let_def split: sum.splits prod.splits if_splits)

lemma get_connection_body_raises:
  "body (connect srv) = Inl e \<Longrightarrow> get_connection srv body = (Inl e, srv)"
  by (simp add: get_connection_def Let_def)

lemma load_body_Inr:
  "load_body df agg sk key run conn = Inr (ins, conn3) \<longleftrightarrow>
     (\<exists>skp conn1 conn2 rid.
        upsert_orders df conn = Inr ((ins, skp), conn1) \<and>
        upsert_purchased_products agg conn1 = Inr ((), conn2) \<and>
        log_pipeline_run conn2 run key ins sk ''success'' = Inr (rid, conn3))"
  by (auto simp add: load_body_def then_do_Inr split: prod.splits)

lemma load_body_products_raise:
  "upsert_orders df conn = Inr (x, conn1) \<Longrightarrow> upsert_purchased_products agg conn1 = Inl e \<Longrightarrow>
   load_body df agg sk key run conn = Inl e"
  by (cases x) (simp add: load_body_def then_do_def)


lemma execute_Inr:
  "execute stmt conn = Inr conn' \<longleftrightarrow>
     faults conn \<noteq> Some (executed conn) \<and>
     (\<exists>d. stmt (working conn) = Inr d \<and>
          conn' = conn\<lparr>working := d, executed := executed conn + 1\<rparr>)"
  by (auto simp: execute_def then_do_Inr)

lemma execute_pages_frame:
  assumes "execute_pages stmt pages rc conn = Inr (rc', conn')"
      and "\<And>page d d'. stmt page d = Inr d' \<Longrightarrow> f d' = f d"
  shows "f (working conn') = f (working conn) \<and> faults conn' = faults conn \<and> now conn' = now conn"
  using assms(1)
proof (induction pages arbitrary: rc conn)
  case Nil
  then show ?case by simp
next
  case (Cons page pages)
  from Cons.prems obtain mid where mid: "execute (stmt page) conn = Inr mid"
      "execute_pages stmt pages (int (length page)) mid = Inr (rc', conn')"
    by (auto simp: then_do_Inr)
  from mid(1) obtain d where "stmt page (working conn) = Inr d"
      "mid = conn\<lparr>working := d, executed := executed conn + 1\<rparr>"
    unfolding execute_Inr by blast
  with assms(2) [of page "working conn" d]
  have "f (working mid) = f (working conn)" "faults mid = faults conn" "now mid = now conn"
    by simp_all
  with Cons.IH [OF mid(2)] show ?case by simp
qed

lemma orders_statement_frame:
  "orders_statement t records d = Inr d' \<Longrightarrow>
     purchased_products d' = purchased_products d \<and> pipeline_runs d' = pipeline_runs d"
  by (auto simp: orders_statement_def then_do_Inr)

lemma products_statement_frame:
  "products_statement t records d = Inr d' \<Longrightarrow>
     orders d' = orders d \<and> pipeline_runs d' = pipeline_runs d"
  by (auto simp: products_statement_def then_do_Inr)

lemma upsert_orders_frame:
  assumes "upsert_orders df conn = Inr (x, conn')"
  shows "pipeline_runs (working conn') = pipeline_runs (working conn) \<and>
         faults conn' = faults conn \<and> now conn' = now conn"
proof (cases "empty df")
  case True
  with assms show ?thesis by (simp add: upsert_orders_def)
next
  case False
  with assms obtain records rc where
    "execute_pages (orders_statement (now conn)) (paginate 500 records) (- 1) conn = Inr (rc, conn')"
    by (auto simp: upsert_orders_def then_do_Inr execute_values_def Let_def split: prod.splits)
  from execute_pages_frame [OF this, of pipeline_runs] show ?thesis
    by (simp add: orders_statement_frame)
qed

lemma upsert_purchased_products_frame:
  assumes "upsert_purchased_products agg conn = Inr (x, conn')"
  shows "pipeline_runs (working conn') = pipeline_runs (working conn) \<and>
         faults conn' = faults conn \<and> now conn' = now conn"
proof (cases "empty agg")
  case True
  with assms show ?thesis by (simp add: upsert_purchased_products_def)
next
  case False
  with assms obtain records rc where
    "execute_pages (products_statement (now conn)) (paginate 500 records) (- 1) conn = Inr (rc, conn')"
    by (auto simp: upsert_purchased_products_def then_do_Inr execute_values_def split: prod.splits)
  from execute_pages_frame [OF this, of pipeline_runs] show ?thesis
    by (simp add: products_statement_frame)
qed

lemma log_pipeline_run_Inr:
  assumes "log_pipeline_run conn run file ins sk st = Inr (rid, conn')"
  shows "orders (working conn') = orders (working conn) \<and>
         purchased_products (working conn') = purchased_products (working conn) \<and>
         pipeline_runs (working conn') = pipeline_runs (working conn) @
           [\<lparr>run_id = rid, dag_run_id = run, file_processed = file, rows_inserted = ins,
             rows_skipped = sk, status = st, finished_at = now conn\<rparr>]"
  using assms
  by (auto simp: log_pipeline_run_def then_do_Inr execute_Inr runs_statement_def)


text \<open>
  Claim C1. Whatever the load does, if it raises then the server is left exactly as it
  was: no order, no aggregation and no audit row of the run is committed. In particular,
  when the orders upsert has succeeded on the connection and the aggregation upsert
  raises, the load raises that error and the server is unchanged. If the load succeeds,
  then the three operations all succeeded one after the other on one connection, the
  committed database is the working state after the audit insert, and the audit trail has
  grown by exactly the row of this run, which reports what the orders upsert returned.
\<close>

theorem load_is_all_or_nothing:
  "(\<forall>e. fst (load_to_postgres P srv df sk key run) = Inl e \<longrightarrow>
        snd (load_to_postgres P srv df sk key run) = srv) \<and>
   (\<forall>agg x conn1 e.
      build_product_aggregations P df = Inr agg \<and>
      upsert_orders df (connect srv) = Inr (x, conn1) \<and>
      upsert_purchased_products agg conn1 = Inl e \<longrightarrow>
      load_to_postgres P srv df sk key run = (Inl e, srv)) \<and>
   (fst (load_to_postgres P srv df sk key run) = Inr () \<longrightarrow>
      (\<exists>agg ins skp conn1 conn2 rid conn3.
         build_product_aggregations P df = Inr agg \<and>
         upsert_orders df (connect srv) = Inr ((ins, skp), conn1) \<and>
         upsert_purchased_products agg conn1 = Inr ((), conn2) \<and>
         log_pipeline_run conn2 run key ins (case sk of None \<Rightarrow> 0 | Some k \<Rightarrow> k) ''success''
           = Inr (rid, conn3) \<and>
         snd (load_to_postgres P srv df sk key run) = srv\<lparr>database := working conn3\<rparr> \<and>
         pipeline_runs (working conn3) = pipeline_runs (database srv) @
           [\<lparr>run_id = rid, dag_run_id = run, file_processed = key, rows_inserted = ins,
             rows_skipped = (case sk of None \<Rightarrow> 0 | Some k \<Rightarrow> k), status = ''success'',
             finished_at = clock srv\<rparr>]))"
proof (intro conjI allI impI)
  fix e
  assume "fst (load_to_postgres P srv df sk key run) = Inl e"
  then show "snd (load_to_postgres P srv df sk key run) = srv"
    by (auto simp: load_to_postgres_def Let_def split: sum.splits prod.splits
        dest: get_connection_Inl)
next
  fix agg x conn1 e
  assume h: "build_product_aggregations P df = Inr agg \<and>
      upsert_orders df (connect srv) = Inr (x, conn1) \<and>
      upsert_purchased_products agg conn1 = Inl e"
  then have "load_body df agg (case sk of None \<Rightarrow> 0 | Some k \<Rightarrow> k) key run (connect srv) = Inl e"
    by (auto intro: load_body_products_raise)
  then have "get_connection srv (load_body df agg (case sk of None \<Rightarrow> 0 | Some k \<Rightarrow> k) key run)
               = (Inl e, srv)"
    by (rule get_connection_body_raises)
  with h show "load_to_postgres P srv df sk key run = (Inl e, srv)"
    by (simp add: load_to_postgres_def Let_def)
next
  let ?sk = "case sk of None \<Rightarrow> 0 | Some k \<Rightarrow> k"
  assume ok: "fst (load_to_postgres P srv df sk key run) = Inr ()"
  then obtain agg where agg: "build_product_aggregations P df = Inr agg"
    by (cases "build_product_aggregations P df") (simp_all add: load_to_postgres_def Let_def)
  with ok obtain ins srv' where g: "get_connection srv (load_body df agg ?sk key run) = (Inr ins, srv')"
    and s: "snd (load_to_postgres P srv df sk key run) = srv'"
    by (auto simp: load_to_postgres_def Let_def split: sum.splits prod.splits)
  from get_connection_Inr [OF g] obtain conn3 where
    body: "load_body df agg ?sk key run (connect srv) = Inr (ins, conn3)"
    and srv': "srv' = srv\<lparr>database := working conn3\<rparr>"
    by blast
  from body obtain skp conn1 conn2 rid where steps:
    "upsert_orders df (connect srv) = Inr ((ins, skp), conn1)"
    "upsert_purchased_products agg conn1 = Inr ((), conn2)"
    "log_pipeline_run conn2 run key ins ?sk ''success'' = Inr (rid, conn3)"
    unfolding load_body_Inr by blast
  from upsert_orders_frame [OF steps(1)] upsert_purchased_products_frame [OF steps(2)]
  have "pipeline_runs (working conn2) = pipeline_runs (database srv)" "now conn2 = clock srv"
    by (simp_all add: connect_def)
  with log_pipeline_run_Inr [OF steps(3)]
  have runs: "pipeline_runs (working conn3) = pipeline_runs (database srv) @
           [\<lparr>run_id = rid, dag_run_id = run, file_processed = key, rows_inserted = ins,
             rows_skipped = ?sk, status = ''success'', finished_at = clock srv\<rparr>]"
    by simp
  from agg steps s srv' runs
  show "\<exists>agg ins skp conn1 conn2 rid conn3.
         build_product_aggregations P df = Inr agg \<and>
         upsert_orders df (connect srv) = Inr ((ins, skp), conn1) \<and>
         upsert_purchased_products agg conn1 = Inr ((), conn2) \<and>
         log_pipeline_run conn2 run key ins ?sk ''success'' = Inr (rid, conn3) \<and>
         snd (load_to_postgres P srv df sk key run) = srv\<lparr>database := working conn3\<rparr> \<and>
         pipeline_runs (working conn3) = pipeline_runs (database srv) @
           [\<lparr>run_id = rid, dag_run_id = run, file_processed = key, rows_inserted = ins,
             rows_skipped = ?sk, status = ''success'', finished_at = clock srv\<rparr>]"
    by (intro exI conjI) (simp_all only:)
qed


lemma records_of_Inr:
  assumes "set cols \<subseteq> set (columns df)"
  shows "records_of cols df = Inr (map (\<lambda>r c. if c \<in> set cols then r c else Null) (rows df))"
proof -
  from assms have "filter (\<lambda>c. c \<notin> set (columns df)) cols = []"
    by (auto simp: filter_empty_conv)
  then show ?thesis
    by (simp add: records_of_def)
qed

lemma record_keys:
  "key \<in> set cols \<Longrightarrow>
   map (\<lambda>r. r key) (map (\<lambda>r c. if c \<in> set cols then r c else Null) rs) = map (\<lambda>r. r key) rs"
  by (simp add: comp_def)

lemma upsert_orders_succeeds:
  assumes "\<not> empty df" "set ORDER_COLUMNS \<subseteq> set (columns df)" "length (rows df) \<le> 500"
      and "faults conn = None"
      and "Null \<notin> set (map (\<lambda>r. r ''order_id'') (rows df))"
      and "distinct (map (\<lambda>r. r ''order_id'') (rows df))"
  shows "\<exists>x conn1. upsert_orders df conn = Inr (x, conn1)"
proof -
  let ?records = "map (\<lambda>r c. if c \<in> set ORDER_COLUMNS then r c else Null) (rows df)"
  from assms(1) have ne: "?records \<noteq> []"
    by (simp add: empty_def)
  have keys: "map (\<lambda>r. r ''order_id'') ?records = map (\<lambda>r. r ''order_id'') (rows df)"
    by (rule record_keys) (simp add: ORDER_COLUMNS_def)
  from assms(5,6) obtain tbl where
    "on_conflict_statement ''order_id'' (upsert_order (now conn)) ?records (orders (working conn))
       = Inr tbl"
    unfolding on_conflict_statement_def keys by simp
  then have "\<exists>d. orders_statement (now conn) ?records (working conn) = Inr d"
    by (simp add: orders_statement_def then_do_def)
  with assms(4) have "\<exists>c. execute (orders_statement (now conn) ?records) conn = Inr c"
    by (auto simp: execute_Inr)
  with ne assms(3) have "\<exists>rc c. execute_values (orders_statement (now conn)) ?records 500 conn = Inr (rc, c)"
    by (auto simp: execute_values_def paginate_short then_do_def)
  with assms(1) show ?thesis
    by (auto simp: upsert_orders_def records_of_Inr [OF assms(2)] then_do_def Let_def)
qed

lemma upsert_purchased_products_duplicate:
  assumes "\<not> empty agg" "set AGG_COLUMNS \<subseteq> set (columns agg)" "length (rows agg) \<le> 500"
      and "faults conn = None"
      and "Null \<notin> set (map (\<lambda>r. r ''product'') (rows agg))"
      and "\<not> distinct (map (\<lambda>r. r ''product'') (rows agg))"
  shows "upsert_purchased_products agg conn = Inl CardinalityViolation"
proof -
  let ?records = "map (\<lambda>r c. if c \<in> set AGG_COLUMNS then r c else Null) (rows agg)"
  from assms(1) have ne: "?records \<noteq> []"
    by (simp add: empty_def)
  have keys: "map (\<lambda>r. r ''product'') ?records = map (\<lambda>r. r ''product'') (rows agg)"
    by (rule record_keys) (simp add: AGG_COLUMNS_def)
  from assms(5,6) have
    "on_conflict_statement ''product'' (upsert_product (now conn)) ?records
       (purchased_products (working conn)) = Inl CardinalityViolation"
    unfolding on_conflict_statement_def keys by simp
  then have "products_statement (now conn) ?records (working conn) = Inl CardinalityViolation"
    by (simp add: products_statement_def then_do_def)
  with assms(4) have "execute (products_statement (now conn) ?records) conn = Inl CardinalityViolation"
    by (simp add: execute_def then_do_def)
  with ne assms(3) have
    "execute_values (products_statement (now conn)) ?records 500 conn = Inl CardinalityViolation"
    by (simp add: execute_values_def paginate_short then_do_def)
  with assms(1) show ?thesis
    by (simp add: upsert_purchased_products_def records_of_Inr [OF assms(2)] then_do_def)
qed

text \<open>
  Two orders of the product \<^verbatim>\<open>Laptop\<close>, filed under two categories: the aggregation has
  two rows with the key \<^verbatim>\<open>Laptop\<close>, the upsert of the orders succeeds, the upsert of the
  aggregation is refused by the database, and the server ends as it started.
\<close>

theorem load_is_all_or_nothing_witness:
  "load_to_postgres example_pandas
     \<lparr>database = \<lparr>orders = Map.empty, purchased_products = Map.empty, pipeline_runs = []\<rparr>,
      fault_at = None, commit_fails = False, clock = Timestamp 19919 0\<rparr>
     (example_cleaned
        [example_order ''o1'' ''Laptop'' ''Electronics'' 2 20 (Num 0) 19875,
         example_order ''o2'' ''Laptop'' ''Computers'' 1 10 (Num 0) 19919])
     (Some 0) ''sales.csv'' ''run-1''
   = (Inl CardinalityViolation,
      \<lparr>database = \<lparr>orders = Map.empty, purchased_products = Map.empty, pipeline_runs = []\<rparr>,
       fault_at = None, commit_fails = False, clock = Timestamp 19919 0\<rparr>)"
proof -
  let ?srv = "\<lparr>database = \<lparr>orders = Map.empty, purchased_products = Map.empty, pipeline_runs = []\<rparr>,
      fault_at = None, commit_fails = False, clock = Timestamp 19919 0\<rparr>"
  let ?r1 = "example_order ''o1'' ''Laptop'' ''Electronics'' 2 20 (Num 0) 19875"
  let ?r2 = "example_order ''o2'' ''Laptop'' ''Computers'' 1 10 (Num 0) 19919"
  let ?df = "example_cleaned [?r1, ?r2]"
  from build_product_aggregations_Inr [OF columns_example_cleaned, of example_pandas "[?r1, ?r2]"]
  obtain agg where agg: "build_product_aggregations example_pandas ?df = Inr agg"
      "columns agg = AGG_COLUMNS"
      "rows agg = map (\<lambda>k. (agg_row example_pandas ?df k)
                        (''total_revenue'' := round_cell example_pandas 2 (agg_row example_pandas ?df k ''total_revenue''),
                         ''avg_discount'' := round_cell example_pandas 4 (agg_row example_pandas ?df k ''avg_discount'')))
                      (group_keys ?df)"
    by (elim exE conjE)
  have gk: "group_keys ?df = [(Str (text_of ''Laptop''), Str (text_of ''Electronics'')), (Str (text_of ''Laptop''), Str (text_of ''Computers''))]"
    by (simp add: group_keys_def rows_example_cleaned has_group_key_def group_key_def
        example_order_cells)
  have products: "map (\<lambda>r. r ''product'') (rows agg) = [Str (text_of ''Laptop''), Str (text_of ''Laptop'')]"
    unfolding agg(3) gk by (simp add: agg_row_cells)
  have "\<exists>x conn1. upsert_orders ?df (connect ?srv) = Inr (x, conn1)"
    by (rule upsert_orders_succeeds)
       (simp_all add: empty_def example_cleaned_def ORDER_COLUMNS_def REQUIRED_COLUMNS_def
          connect_def example_order_cells)
  then obtain x conn1 where o: "upsert_orders ?df (connect ?srv) = Inr (x, conn1)"
    by blast
  from upsert_orders_frame [OF o] have f: "faults conn1 = None"
    by (simp add: connect_def)
  have p: "upsert_purchased_products agg conn1 = Inl CardinalityViolation"
    by (rule upsert_purchased_products_duplicate)
       (simp_all add: empty_def agg(2) f products, simp_all add: agg(3) gk AGG_COLUMNS_def)
  from load_is_all_or_nothing [of example_pandas ?srv ?df "Some 0" "''sales.csv''" "''run-1''"] agg(1) o p
  show ?thesis
    by blast
qed

end
